theory Spec2Isabelle
  imports Complex_Main
begin

section \<open>Python values, exceptions and part descriptions\<close>

text \<open>
  A part description is a Python dictionary from field names to values. The values a
  catalog delivers are integers, floats, strings and \<open>None\<close>. Python floats are read as
  real numbers and Python's unbounded integers as \<open>int\<close>. A string is a list of
  characters with code points below 256.
\<close>

datatype pyval = PInt int | PFloat real | PStr string | PNone

datatype exn =
    KeyError string
  | AttributeError
  | TypeError
  | ValueError string
  | ZeroDivisionError
  | ShapelyError

type_synonym part_info = "string \<rightharpoonup> pyval"

text \<open>
  A raised exception is the left summand of the result. \<open>and_then m f\<close> runs \<open>f\<close> on the
  value of \<open>m\<close>, or passes on the exception \<open>m\<close> raised.
\<close>

definition and_then :: "exn + 'a \<Rightarrow> ('a \<Rightarrow> exn + 'b) \<Rightarrow> exn + 'b" where
  "and_then m f = (case m of Inl e \<Rightarrow> Inl e | Inr v \<Rightarrow> f v)"

text \<open>\<open>d[k]\<close>: a missing key raises \<open>KeyError\<close>.\<close>

definition getitem :: "part_info \<Rightarrow> string \<Rightarrow> exn + pyval" where
  "getitem d k = (case d k of None \<Rightarrow> Inl (KeyError k) | Some v \<Rightarrow> Inr v)"

text \<open>
  \<open>str.lower()\<close> on code points below 256: the ASCII capitals and the Latin-1 capitals
  (all of \<open>0xC0..0xDE\<close> but the multiplication sign \<open>0xD7\<close>) move up by 32.
\<close>

definition lower_char :: "char \<Rightarrow> char" where
  "lower_char c =
     (let n = (of_char c :: nat)
      in if (65 \<le> n \<and> n \<le> 90) \<or> (192 \<le> n \<and> n \<le> 222 \<and> n \<noteq> 215)
         then char_of (n + 32) else c)"

definition lower :: "string \<Rightarrow> string" where
  "lower s = map lower_char s"

text \<open>\<open>v.lower()\<close>: only a string has the method.\<close>

definition py_lower :: "pyval \<Rightarrow> exn + string" where
  "py_lower v = (case v of PStr s \<Rightarrow> Inr (lower s) | _ \<Rightarrow> Inl AttributeError)"

text \<open>
  A value used in float arithmetic (\<open>-v/2\<close>, \<open>v * numpy.float64\<close>): a number gives its
  value, a string or \<open>None\<close> raises \<open>TypeError\<close>.
\<close>

definition as_number :: "pyval \<Rightarrow> exn + real" where
  "as_number v =
     (case v of PInt i \<Rightarrow> Inr (real_of_int i) | PFloat r \<Rightarrow> Inr r | _ \<Rightarrow> Inl TypeError)"

text \<open>
  Python's \<open>*\<close> on two values: numbers multiply (the result is a float as soon as one
  factor is), a string times an integer repeats the string, everything else raises
  \<open>TypeError\<close>.
\<close>

fun py_mul :: "pyval \<Rightarrow> pyval \<Rightarrow> exn + pyval" where
  "py_mul (PInt a) (PInt b) = Inr (PInt (a * b))"
| "py_mul (PInt a) (PFloat b) = Inr (PFloat (real_of_int a * b))"
| "py_mul (PFloat a) (PInt b) = Inr (PFloat (a * real_of_int b))"
| "py_mul (PFloat a) (PFloat b) = Inr (PFloat (a * b))"
| "py_mul (PInt n) (PStr s) = Inr (PStr (concat (replicate (nat n) s)))"
| "py_mul (PStr s) (PInt n) = Inr (PStr (concat (replicate (nat n) s)))"
| "py_mul _ _ = Inl TypeError"

text \<open>Decimal digits of a natural number and of an integer, as \<open>str\<close> prints them.\<close>

fun str_nat :: "nat \<Rightarrow> string" where
  "str_nat n =
     (if n < 10 then [char_of (48 + n)]
      else str_nat (n div 10) @ [char_of (48 + n mod 10)])"

declare str_nat.simps [simp del]

definition str_int :: "int \<Rightarrow> string" where
  "str_int i = (if i < 0 then ''-'' @ str_nat (nat (- i)) else str_nat (nat i))"

text \<open>
  \<open>str(v)\<close>, as an f-string field formats it. The text of a float is not modelled: it is
  the parameter \<open>repr_float\<close>.
\<close>

definition py_str :: "(real \<Rightarrow> string) \<Rightarrow> pyval \<Rightarrow> string" where
  "py_str repr_float v =
     (case v of
        PStr s \<Rightarrow> s
      | PInt i \<Rightarrow> str_int i
      | PFloat r \<Rightarrow> repr_float r
      | PNone \<Rightarrow> ''None'')"

section \<open>The geometry library\<close>

text \<open>
  The geometry comes from the Shapely library, which is not part of the repository. Its
  operations are a parameter of the model: a record of functions over some type \<open>'g\<close>
  of geometries. An operation that can raise returns \<open>None\<close> when it does; the model
  turns that into the exception \<open>ShapelyError\<close>. The properties \<open>bounds\<close> and \<open>area\<close> of
  an existing geometry do not raise. \<open>rotate_center g a\<close> is
  \<open>rotate(g, a, use_radians=True, origin='center')\<close> and \<open>intersection_area g h\<close> is
  \<open>g.intersection(h).area\<close>.
\<close>

record 'g shapely =
  Box :: "real \<Rightarrow> real \<Rightarrow> real \<Rightarrow> real \<Rightarrow> 'g option"
  Polygon :: "(real \<times> real) list \<Rightarrow> 'g option"
  rotate_center :: "'g \<Rightarrow> real \<Rightarrow> 'g option"
  translate :: "'g \<Rightarrow> real \<Rightarrow> real \<Rightarrow> 'g option"
  bounds :: "'g \<Rightarrow> real \<times> real \<times> real \<times> real"
  intersects :: "'g \<Rightarrow> 'g \<Rightarrow> bool option"
  intersection_area :: "'g \<Rightarrow> 'g \<Rightarrow> real option"
  area :: "'g \<Rightarrow> real"

definition lib :: "'a option \<Rightarrow> exn + 'a" where
  "lib r = (case r of None \<Rightarrow> Inl ShapelyError | Some v \<Rightarrow> Inr v)"

section \<open>geometry\_utils.py\<close>

text \<open>\<open>np.linspace(0, 2*np.pi, 32, endpoint=False)\<close>: the 32 angles \<open>k * (2 pi / 32)\<close>.\<close>

definition angles :: "real list" where
  "angles = map (\<lambda>k. real k * (2 * pi / 32)) [0..<32]"

definition circle_points :: "real \<Rightarrow> (real \<times> real) list" where
  "circle_points radius = map (\<lambda>a. (radius * cos a, radius * sin a)) angles"

definition triangle_points :: "real \<Rightarrow> real \<Rightarrow> (real \<times> real) list" where
  "triangle_points base height =
     [(- base / 2, - height / 3), (base / 2, - height / 3), (0, 2 * height / 3)]"

definition unsupported :: "string \<Rightarrow> exn" where
  "unsupported part_type = ValueError (''Unsupported part type: '' @ part_type)"

definition create_part_from_dict :: "'g shapely \<Rightarrow> part_info \<Rightarrow> exn + 'g" where
  "create_part_from_dict G part_info =
     and_then (getitem part_info ''type'') (\<lambda>tv.
     and_then (py_lower tv) (\<lambda>part_type.
       if part_type = ''rectangle'' then
         and_then (getitem part_info ''width'') (\<lambda>width.
         and_then (getitem part_info ''height'') (\<lambda>height.
         and_then (as_number width) (\<lambda>w.
         and_then (as_number height) (\<lambda>h.
           lib (Box G (- w / 2) (- h / 2) (w / 2) (h / 2))))))
       else if part_type = ''circle'' then
         and_then (getitem part_info ''radius'') (\<lambda>radius.
         and_then (as_number radius) (\<lambda>r.
           lib (Polygon G (circle_points r))))
       else if part_type = ''triangle'' then
         and_then (getitem part_info ''base'') (\<lambda>base.
         and_then (getitem part_info ''height'') (\<lambda>height.
         and_then (as_number base) (\<lambda>b.
         and_then (as_number height) (\<lambda>h.
           lib (Polygon G (triangle_points b h))))))
       else Inl (unsupported part_type)))"

definition get_part_bounds :: "part_info \<Rightarrow> exn + (pyval \<times> pyval)" where
  "get_part_bounds part_info =
     and_then (getitem part_info ''type'') (\<lambda>tv.
     and_then (py_lower tv) (\<lambda>part_type.
       if part_type = ''rectangle'' then
         and_then (getitem part_info ''width'') (\<lambda>width.
         and_then (getitem part_info ''height'') (\<lambda>height.
           Inr (width, height)))
       else if part_type = ''circle'' then
         and_then (getitem part_info ''radius'') (\<lambda>radius.
         and_then (py_mul (PInt 2) radius) (\<lambda>d1.
         and_then (py_mul (PInt 2) radius) (\<lambda>d2.
           Inr (d1, d2))))
       else if part_type = ''triangle'' then
         and_then (getitem part_info ''base'') (\<lambda>base.
         and_then (getitem part_info ''height'') (\<lambda>height.
           Inr (base, height)))
       else Inl (unsupported part_type)))"

definition calculate_part_area :: "part_info \<Rightarrow> exn + pyval" where
  "calculate_part_area part_info =
     and_then (getitem part_info ''type'') (\<lambda>tv.
     and_then (py_lower tv) (\<lambda>part_type.
       if part_type = ''rectangle'' then
         and_then (getitem part_info ''width'') (\<lambda>width.
         and_then (getitem part_info ''height'') (\<lambda>height.
           py_mul width height))
       else if part_type = ''circle'' then
         and_then (getitem part_info ''radius'') (\<lambda>radius.
         and_then (py_mul (PFloat pi) radius) (\<lambda>t.
           py_mul t radius))
       else if part_type = ''triangle'' then
         and_then (getitem part_info ''base'') (\<lambda>base.
         and_then (getitem part_info ''height'') (\<lambda>height.
         and_then (py_mul (PFloat (1 / 2)) base) (\<lambda>t.
           py_mul t height)))
       else Inl (unsupported part_type)))"

section \<open>nesting\_optimizer.py: the optimizer and its part list\<close>

record optimizer =
  sheet_width :: real
  sheet_height :: real
  population_size :: nat
  generations :: nat
  mutation_rate :: real
  parts :: "part_info list"

text \<open>\<open>d.get(k, default)\<close>.\<close>

definition dict_get :: "part_info \<Rightarrow> string \<Rightarrow> pyval \<Rightarrow> pyval" where
  "dict_get d k dflt = (case d k of None \<Rightarrow> dflt | Some v \<Rightarrow> v)"

text \<open>
  The inner loop of \<open>expand_parts_list\<close> over \<open>range(quantity)\<close>: each round copies the
  part, sets the copy's id and appends the copy. \<open>part['id']\<close> is read in both branches
  of the conditional expression.
\<close>

fun copy_loop ::
  "(real \<Rightarrow> string) \<Rightarrow> part_info \<Rightarrow> int \<Rightarrow> nat list \<Rightarrow> part_info list \<Rightarrow> exn + part_info list"
where
  "copy_loop repr_float part quantity [] expanded_parts = Inr expanded_parts"
| "copy_loop repr_float part quantity (i # rest) expanded_parts =
     and_then
       (if quantity > 1
        then and_then (getitem part ''id'')
               (\<lambda>pid. Inr (PStr (py_str repr_float pid @ ''_'' @ str_nat (i + 1))))
        else getitem part ''id'')
       (\<lambda>new_id. copy_loop repr_float part quantity rest
                    (expanded_parts @ [part(''id'' \<mapsto> new_id)]))"

text \<open>
  The outer loop. \<open>range(quantity)\<close> raises \<open>TypeError\<close> unless the quantity is an
  integer; for an integer \<open>n\<close> it runs over \<open>0, ..., n - 1\<close> and is empty when \<open>n \<le> 0\<close>.
\<close>

fun expand_loop ::
  "(real \<Rightarrow> string) \<Rightarrow> part_info list \<Rightarrow> part_info list \<Rightarrow> exn + part_info list"
where
  "expand_loop repr_float [] expanded_parts = Inr expanded_parts"
| "expand_loop repr_float (part # rest) expanded_parts =
     (case dict_get part ''quantity'' (PInt 1) of
        PInt quantity \<Rightarrow>
          and_then (copy_loop repr_float part quantity [0..<nat quantity] expanded_parts)
            (\<lambda>acc. expand_loop repr_float rest acc)
      | _ \<Rightarrow> Inl TypeError)"

definition expand_parts_list ::
  "(real \<Rightarrow> string) \<Rightarrow> part_info list \<Rightarrow> exn + part_info list"
where
  "expand_parts_list repr_float parts_data = expand_loop repr_float parts_data []"

section \<open>Individuals\<close>

text \<open>
  An individual is its list of genes and its cached fitness; \<open>None\<close> is a fitness whose
  values were deleted (or never set).
\<close>

record individual =
  genes :: "real list"
  fitness_values :: "real option"

text \<open>
  The random source is explicit: \<open>rnd k\<close> is the \<open>k\<close>-th value \<open>random.random()\<close>
  returns, and \<open>random.uniform(a, b)\<close> is \<open>a + (b - a) * random()\<close>.
\<close>

definition uniform :: "real \<Rightarrow> real \<Rightarrow> real \<Rightarrow> real" where
  "uniform a b u = a + (b - a) * u"

fun create_loop ::
  "(nat \<Rightarrow> real) \<Rightarrow> optimizer \<Rightarrow> part_info list \<Rightarrow> nat \<Rightarrow> real list \<Rightarrow> real list \<times> nat"
where
  "create_loop rnd self [] k individual = (individual, k)"
| "create_loop rnd self (part # rest) k individual =
     (let x = uniform 0 (sheet_width self) (rnd k);
          y = uniform 0 (sheet_height self) (rnd (k + 1));
          rotation = uniform 0 (2 * pi) (rnd (k + 2))
      in create_loop rnd self rest (k + 3) (individual @ [x, y, rotation]))"

definition create_individual :: "(nat \<Rightarrow> real) \<Rightarrow> nat \<Rightarrow> optimizer \<Rightarrow> individual \<times> nat" where
  "create_individual rnd k self =
     (case create_loop rnd self (parts self) k [] of
        (gs, k') \<Rightarrow> (\<lparr>genes = gs, fitness_values = None\<rparr>, k'))"

text \<open>
  \<open>decode_individual\<close>: part \<open>i\<close> takes the slice \<open>individual[3*i : 3*i + 3]\<close>; unpacking
  a slice that is shorter than three raises \<open>ValueError\<close>.
\<close>

type_synonym layout = "(part_info \<times> real \<times> real \<times> real) list"

fun decode_loop :: "nat \<Rightarrow> part_info list \<Rightarrow> real list \<Rightarrow> exn + layout" where
  "decode_loop i [] individual = Inr []"
| "decode_loop i (part # rest) individual =
     (case take 3 (drop (i * 3) individual) of
        [x, y, rotation] \<Rightarrow>
          and_then (decode_loop (Suc i) rest individual)
            (\<lambda>layout. Inr ((part, x, y, rotation) # layout))
      | _ \<Rightarrow> Inl (ValueError ''not enough values to unpack''))"

definition decode_individual :: "optimizer \<Rightarrow> real list \<Rightarrow> exn + layout" where
  "decode_individual self individual = decode_loop 0 (parts self) individual"

section \<open>Fitness evaluation\<close>

text \<open>
  The overlap check of \<open>evaluate_layout\<close>: the value of the flag \<open>overlaps\<close> after the
  loop over the shapes placed so far, which stops at the first overlap above \<open>1e-6\<close>.
\<close>

fun overlaps_loop :: "'g shapely \<Rightarrow> 'g \<Rightarrow> 'g list \<Rightarrow> exn + bool" where
  "overlaps_loop G part_shape [] = Inr False"
| "overlaps_loop G part_shape (placed_shape # rest) =
     and_then (lib (intersects G part_shape placed_shape)) (\<lambda>hit.
       if hit then
         and_then (lib (intersection_area G part_shape placed_shape)) (\<lambda>overlap_area.
           if overlap_area > 1 / 1000000 then Inr True
           else overlaps_loop G part_shape rest)
       else overlaps_loop G part_shape rest)"

text \<open>
  The body of the \<open>try\<close> for one layout entry, on the state \<open>(placed_parts, total_area)\<close>.
  The state changes only in the last step, so an exception leaves it as it was.
\<close>

definition evaluate_try ::
  "'g shapely \<Rightarrow> optimizer \<Rightarrow> 'g list \<times> real \<Rightarrow> part_info \<times> real \<times> real \<times> real
     \<Rightarrow> exn + ('g list \<times> real)"
where
  "evaluate_try G self st entry =
     (case (st, entry) of ((placed_parts, total_area), (part_info, x, y, rotation)) \<Rightarrow>
        and_then (create_part_from_dict G part_info) (\<lambda>created.
        and_then (if rotation \<noteq> 0 then lib (rotate_center G created rotation)
                  else Inr created) (\<lambda>rotated.
        and_then (lib (translate G rotated x y)) (\<lambda>part_shape.
          (case bounds G part_shape of (b0, b1, b2, b3) \<Rightarrow>
             if b0 \<ge> 0 \<and> b1 \<ge> 0 \<and> b2 \<le> sheet_width self \<and> b3 \<le> sheet_height self
             then and_then (overlaps_loop G part_shape placed_parts) (\<lambda>overlaps.
                    if \<not> overlaps
                    then Inr (placed_parts @ [part_shape], total_area + area G part_shape)
                    else Inr (placed_parts, total_area))
             else Inr (placed_parts, total_area))))))"

text \<open>\<open>except Exception: continue\<close>: the entry is skipped and the state kept.\<close>

definition evaluate_step ::
  "'g shapely \<Rightarrow> optimizer \<Rightarrow> 'g list \<times> real \<Rightarrow> part_info \<times> real \<times> real \<times> real
     \<Rightarrow> 'g list \<times> real"
where
  "evaluate_step G self st entry =
     (case evaluate_try G self st entry of Inl e \<Rightarrow> st | Inr st' \<Rightarrow> st')"

fun evaluate_loop :: "'g shapely \<Rightarrow> optimizer \<Rightarrow> layout \<Rightarrow> 'g list \<times> real \<Rightarrow> 'g list \<times> real" where
  "evaluate_loop G self [] st = st"
| "evaluate_loop G self (entry # rest) st = evaluate_loop G self rest (evaluate_step G self st entry)"

text \<open>The three values computed after the loop.\<close>

definition evaluate_utilization :: "optimizer \<Rightarrow> real \<Rightarrow> real" where
  "evaluate_utilization self total_area =
     (let sheet_area = sheet_width self * sheet_height self
      in if sheet_area > 0 then (total_area / sheet_area) * 100 else 0)"

definition evaluate_placement_ratio :: "optimizer \<Rightarrow> 'g list \<Rightarrow> real" where
  "evaluate_placement_ratio self placed_parts =
     (if parts self \<noteq> [] then real (length placed_parts) / real (length (parts self)) else 0)"

definition evaluate_fitness :: "optimizer \<Rightarrow> 'g list \<times> real \<Rightarrow> real" where
  "evaluate_fitness self st =
     (case st of (placed_parts, total_area) \<Rightarrow>
        let utilization = evaluate_utilization self total_area;
            placement_ratio = evaluate_placement_ratio self placed_parts
        in utilization * (1 / 2 + 1 / 2 * placement_ratio))"

definition evaluate_layout :: "'g shapely \<Rightarrow> optimizer \<Rightarrow> real list \<Rightarrow> exn + real" where
  "evaluate_layout G self individual =
     and_then (decode_individual self individual) (\<lambda>layout.
       Inr (evaluate_fitness self (evaluate_loop G self layout ([], 0))))"

section \<open>Statistics\<close>

record stats =
  utilization :: real
  parts_placed :: nat
  total_parts :: nat
  total_area :: real
  sheet_area :: real
  waste_area :: real

text \<open>
  The overlap check of \<open>calculate_layout_stats\<close>: the value of the flag \<open>valid\<close> after
  the loop.
\<close>

fun valid_loop :: "'g shapely \<Rightarrow> 'g \<Rightarrow> 'g list \<Rightarrow> exn + bool" where
  "valid_loop G part_shape [] = Inr True"
| "valid_loop G part_shape (placed_shape # rest) =
     and_then (lib (intersects G part_shape placed_shape)) (\<lambda>hit.
       if hit then
         and_then (lib (intersection_area G part_shape placed_shape)) (\<lambda>a.
           if a > 1 / 1000000 then Inr False
           else valid_loop G part_shape rest)
       else valid_loop G part_shape rest)"

text \<open>The state of the statistics loop is \<open>(placed_parts, total_area, parts_placed)\<close>.\<close>

definition stats_try ::
  "'g shapely \<Rightarrow> optimizer \<Rightarrow> 'g list \<times> real \<times> nat \<Rightarrow> part_info \<times> real \<times> real \<times> real
     \<Rightarrow> exn + ('g list \<times> real \<times> nat)"
where
  "stats_try G self st entry =
     (case (st, entry) of ((placed, tot, n_placed), (part_info, x, y, rotation)) \<Rightarrow>
        and_then (create_part_from_dict G part_info) (\<lambda>created.
        and_then (if rotation \<noteq> 0 then lib (rotate_center G created rotation)
                  else Inr created) (\<lambda>rotated.
        and_then (lib (translate G rotated x y)) (\<lambda>part_shape.
          (case bounds G part_shape of (b0, b1, b2, b3) \<Rightarrow>
             if b0 \<ge> 0 \<and> b1 \<ge> 0 \<and> b2 \<le> sheet_width self \<and> b3 \<le> sheet_height self
             then and_then (valid_loop G part_shape placed) (\<lambda>valid.
                    if valid
                    then Inr (placed @ [part_shape], tot + area G part_shape, n_placed + 1)
                    else Inr (placed, tot, n_placed))
             else Inr (placed, tot, n_placed))))))"

definition stats_step ::
  "'g shapely \<Rightarrow> optimizer \<Rightarrow> 'g list \<times> real \<times> nat \<Rightarrow> part_info \<times> real \<times> real \<times> real
     \<Rightarrow> 'g list \<times> real \<times> nat"
where
  "stats_step G self st entry =
     (case stats_try G self st entry of Inl e \<Rightarrow> st | Inr st' \<Rightarrow> st')"

fun stats_loop ::
  "'g shapely \<Rightarrow> optimizer \<Rightarrow> layout \<Rightarrow> 'g list \<times> real \<times> nat \<Rightarrow> 'g list \<times> real \<times> nat"
where
  "stats_loop G self [] st = st"
| "stats_loop G self (entry # rest) st = stats_loop G self rest (stats_step G self st entry)"

text \<open>
  After the loop the utilization is computed with no test of the sheet area: dividing
  by a sheet area of zero raises \<open>ZeroDivisionError\<close>.
\<close>

definition calculate_layout_stats :: "'g shapely \<Rightarrow> optimizer \<Rightarrow> layout \<Rightarrow> exn + stats" where
  "calculate_layout_stats G self layout =
     (case stats_loop G self layout ([], 0, 0) of (placed, tot, n_placed) \<Rightarrow>
        let area_of_sheet = sheet_width self * sheet_height self
        in if area_of_sheet = 0 then Inl ZeroDivisionError
           else Inr \<lparr>utilization = (tot / area_of_sheet) * 100,
                     parts_placed = n_placed,
                     total_parts = length (parts self),
                     total_area = tot,
                     sheet_area = area_of_sheet,
                     waste_area = area_of_sheet - tot\<rparr>)"

section \<open>Crossover\<close>

text \<open>
  \<open>random.randrange(start, stop)\<close> with the explicit random draw \<open>u\<close>: an empty range
  raises \<open>ValueError\<close>, otherwise the draw selects one of the \<open>stop - start\<close> values.
\<close>

definition randrange :: "nat \<Rightarrow> nat \<Rightarrow> nat \<Rightarrow> exn + nat" where
  "randrange u start stop =
     (if start < stop then Inr (start + u mod (stop - start))
      else Inl (ValueError ''empty range for randrange()''))"

text \<open>
  The slice assignment \<open>ind1[c:], ind2[c:] = ind2[c:], ind1[c:]\<close> reads both tails first
  and then replaces each tail by the other. \<open>del ind.fitness.values\<close> runs for both
  individuals whether or not the tails were swapped.
\<close>

definition crossover :: "nat \<Rightarrow> individual \<Rightarrow> individual \<Rightarrow> exn + (individual \<times> individual)" where
  "crossover u ind1 ind2 =
     and_then
       (if length (genes ind1) > 3
        then and_then (randrange u 1 (length (genes ind1) div 3)) (\<lambda>k.
               let cross_point = k * 3;
                   tail1 = drop cross_point (genes ind1);
                   tail2 = drop cross_point (genes ind2)
               in Inr (take cross_point (genes ind1) @ tail2,
                       take cross_point (genes ind2) @ tail1))
        else Inr (genes ind1, genes ind2))
       (\<lambda>(g1, g2). Inr (ind1\<lparr>genes := g1, fitness_values := None\<rparr>,
                         ind2\<lparr>genes := g2, fitness_values := None\<rparr>))"

section \<open>A geometry of rings in the plane\<close>

text \<open>
  One instance of the library parameter, used to state facts about areas and to run the
  model on concrete layouts. A geometry is the ring of its vertices, unclosed. \<open>Box\<close>
  lists its corners as the library does, counter-clockwise from \<open>(maxx, miny)\<close>; the
  area is the absolute value of the shoelace sum over the closed ring; the bounds are
  the extreme coordinates; \<open>translate\<close> shifts every vertex; \<open>rotate\<close> with
  \<open>origin='center'\<close> turns the ring about the centre of its bounds, after replacing a
  cosine or sine below \<open>2.5e-16\<close> in absolute value by zero. The two overlap operations
  are parameters of the instance.
\<close>

type_synonym ring = "(real \<times> real) list"

fun shoelace :: "ring \<Rightarrow> real" where
  "shoelace (p # q # rest) = (fst p * snd q - fst q * snd p) + shoelace (q # rest)"
| "shoelace _ = 0"

definition closed :: "ring \<Rightarrow> ring" where
  "closed r = (case r of [] \<Rightarrow> [] | p # _ \<Rightarrow> r @ [p])"

definition ring_area :: "ring \<Rightarrow> real" where
  "ring_area r = \<bar>shoelace (closed r)\<bar> / 2"

definition ring_bounds :: "ring \<Rightarrow> real \<times> real \<times> real \<times> real" where
  "ring_bounds r =
     (if r = [] then (0, 0, 0, 0)
      else (Min (set (map fst r)), Min (set (map snd r)),
            Max (set (map fst r)), Max (set (map snd r))))"

definition ring_box :: "real \<Rightarrow> real \<Rightarrow> real \<Rightarrow> real \<Rightarrow> ring" where
  "ring_box minx miny maxx maxy = [(maxx, miny), (maxx, maxy), (minx, maxy), (minx, miny)]"

definition ring_translate :: "ring \<Rightarrow> real \<Rightarrow> real \<Rightarrow> ring" where
  "ring_translate r xoff yoff = map (\<lambda>(x, y). (x + xoff, y + yoff)) r"

definition ring_rotate :: "ring \<Rightarrow> real \<Rightarrow> ring" where
  "ring_rotate r angle =
     (let cosp = (if \<bar>cos angle\<bar> < 25 / 10 ^ 17 then 0 else cos angle);
          sinp = (if \<bar>sin angle\<bar> < 25 / 10 ^ 17 then 0 else sin angle)
      in case ring_bounds r of (minx, miny, maxx, maxy) \<Rightarrow>
           let x0 = (minx + maxx) / 2;
               y0 = (miny + maxy) / 2;
               xoff = x0 - x0 * cosp + y0 * sinp;
               yoff = y0 - x0 * sinp - y0 * cosp
           in map (\<lambda>(x, y). (cosp * x - sinp * y + xoff, sinp * x + cosp * y + yoff)) r)"

definition plane ::
  "(ring \<Rightarrow> ring \<Rightarrow> bool option) \<Rightarrow> (ring \<Rightarrow> ring \<Rightarrow> real option) \<Rightarrow> ring shapely"
where
  "plane isect iarea =
     \<lparr>Box = (\<lambda>minx miny maxx maxy. Some (ring_box minx miny maxx maxy)),
      Polygon = (\<lambda>points. if length points < 3 then None else Some points),
      rotate_center = (\<lambda>r angle. Some (ring_rotate r angle)),
      translate = (\<lambda>r xoff yoff. Some (ring_translate r xoff yoff)),
      bounds = ring_bounds,
      intersects = isect,
      intersection_area = iarea,
      area = ring_area\<rparr>"

text \<open>
  For rectangles with sides parallel to the axes the overlap is that of the bounds:
  two closed rectangles intersect unless one lies strictly beside the other, and the
  intersection is the rectangle between the inner bounds.
\<close>

definition rect_intersects :: "ring \<Rightarrow> ring \<Rightarrow> bool" where
  "rect_intersects a b =
     (case (ring_bounds a, ring_bounds b) of
        ((aminx, aminy, amaxx, amaxy), (bminx, bminy, bmaxx, bmaxy)) \<Rightarrow>
          \<not> (amaxx < bminx \<or> bmaxx < aminx \<or> amaxy < bminy \<or> bmaxy < aminy))"

definition rect_intersection_area :: "ring \<Rightarrow> ring \<Rightarrow> real" where
  "rect_intersection_area a b =
     (case (ring_bounds a, ring_bounds b) of
        ((aminx, aminy, amaxx, amaxy), (bminx, bminy, bmaxx, bmaxy)) \<Rightarrow>
          max 0 (min amaxx bmaxx - max aminx bminx) * max 0 (min amaxy bmaxy - max aminy bminy))"

definition rectangles :: "ring shapely" where
  "rectangles = plane (\<lambda>a b. Some (rect_intersects a b)) (\<lambda>a b. Some (rect_intersection_area a b))"

text \<open>A rectangle part, and an optimizer with the default settings on a given sheet.\<close>

definition rectangle_part :: "string \<Rightarrow> real \<Rightarrow> real \<Rightarrow> part_info" where
  "rectangle_part name w h =
     [''id'' \<mapsto> PStr name, ''type'' \<mapsto> PStr ''rectangle'',
      ''width'' \<mapsto> PFloat w, ''height'' \<mapsto> PFloat h]"

definition circle_part :: "string \<Rightarrow> real \<Rightarrow> part_info" where
  "circle_part name r =
     [''id'' \<mapsto> PStr name, ''type'' \<mapsto> PStr ''circle'', ''radius'' \<mapsto> PFloat r]"

definition optimizer_on :: "real \<Rightarrow> real \<Rightarrow> part_info list \<Rightarrow> optimizer" where
  "optimizer_on w h ps =
     \<lparr>sheet_width = w, sheet_height = h, population_size = 50, generations = 30,
      mutation_rate = 1 / 10, parts = ps\<rparr>"

section \<open>Properties of the accepted shapes\<close>

text \<open>
  A shape lies within the sheet when its bounds do. A shape exceeds the tolerance
  against another when the library reports that they intersect and that the area of
  their intersection is above \<open>1e-6\<close>. A list of accepted shapes, in the order of
  acceptance, is in order when every shape lies within the sheet and no shape exceeds
  the tolerance against one accepted before it.
\<close>

definition within_sheet :: "'g shapely \<Rightarrow> optimizer \<Rightarrow> 'g \<Rightarrow> bool" where
  "within_sheet G self s =
     (case bounds G s of (b0, b1, b2, b3) \<Rightarrow>
        0 \<le> b0 \<and> 0 \<le> b1 \<and> b2 \<le> sheet_width self \<and> b3 \<le> sheet_height self)"

definition exceeds :: "'g shapely \<Rightarrow> 'g \<Rightarrow> 'g \<Rightarrow> bool" where
  "exceeds G s q =
     (intersects G s q = Some True \<and>
      (case intersection_area G s q of None \<Rightarrow> False | Some a \<Rightarrow> a > 1 / 1000000))"

definition accepted_ok :: "'g shapely \<Rightarrow> optimizer \<Rightarrow> 'g list \<Rightarrow> bool" where
  "accepted_ok G self placed =
     ((\<forall>s \<in> set placed. within_sheet G self s) \<and>
      (\<forall>j < length placed. \<forall>i < j. \<not> exceeds G (placed ! j) (placed ! i)))"

text \<open>
  Two properties of a geometry library that the statements about areas rest on: an area
  is never negative, and a geometry with a nonzero area extends in both directions.
\<close>

definition area_nonneg :: "'g shapely \<Rightarrow> bool" where
  "area_nonneg G = (\<forall>g. 0 \<le> area G g)"

definition area_needs_extent :: "'g shapely \<Rightarrow> bool" where
  "area_needs_extent G =
     (\<forall>g. area G g \<noteq> 0 \<longrightarrow> (case bounds G g of (b0, b1, b2, b3) \<Rightarrow> b0 < b2 \<and> b1 < b3))"

section \<open>The specification's reading of decoding and expansion\<close>

text \<open>
  The specification's \<open>decode\<close>: triple \<open>i\<close> of the genotype is paired with part \<open>i\<close>.
\<close>

definition spec_decode :: "part_info list \<Rightarrow> real list \<Rightarrow> layout" where
  "spec_decode ps g =
     map (\<lambda>i. (ps ! i, g ! (3 * i), g ! (3 * i + 1), g ! (3 * i + 2))) [0..<length ps]"

text \<open>
  The accepted shapes and their total area for a genotype: the result of the acceptance
  loop of the fitness evaluation on the decoded genotype.
\<close>

definition accepted :: "'g shapely \<Rightarrow> optimizer \<Rightarrow> real list \<Rightarrow> 'g list \<times> real" where
  "accepted G self g = evaluate_loop G self (spec_decode (parts self) g) ([], 0)"

text \<open>
  The specification's \<open>expand\<close>: a part with quantity \<open>q\<close> yields \<open>q\<close> copies; when
  \<open>q > 1\<close> copy \<open>j\<close> (from 1 to \<open>q\<close>) carries the id suffixed with \<open>_j\<close>, otherwise the id
  is kept. The quantity defaults to 1.
\<close>

definition spec_quantity :: "part_info \<Rightarrow> nat" where
  "spec_quantity part =
     (case part ''quantity'' of None \<Rightarrow> 1 | Some (PInt q) \<Rightarrow> nat q | Some _ \<Rightarrow> 0)"

definition spec_replicas :: "(real \<Rightarrow> string) \<Rightarrow> part_info \<Rightarrow> part_info list" where
  "spec_replicas repr_float part =
     map (\<lambda>j. part(''id'' \<mapsto>
                 (if spec_quantity part > 1
                  then PStr (py_str repr_float (dict_get part ''id'' PNone) @ ''_'' @ str_nat j)
                  else dict_get part ''id'' PNone)))
       [1..<spec_quantity part + 1]"

definition spec_expand :: "(real \<Rightarrow> string) \<Rightarrow> part_info list \<Rightarrow> part_info list" where
  "spec_expand repr_float catalog = concat (map (spec_replicas repr_float) catalog)"

text \<open>A catalog entry with an id and with a quantity that is absent or an integer.\<close>

definition well_formed :: "part_info \<Rightarrow> bool" where
  "well_formed part =
     (part ''id'' \<noteq> None \<and>
      (case part ''quantity'' of None \<Rightarrow> True | Some (PInt q) \<Rightarrow> True | Some _ \<Rightarrow> False))"

section \<open>Example sheets and layouts\<close>

text \<open>
  Three rectangles on a sheet of 10 by 10: the second overlaps the first, the third
  lies clear of both.
\<close>

definition part_a :: part_info where "part_a = rectangle_part ''a'' 4 4"

definition part_b :: part_info where "part_b = rectangle_part ''b'' 4 4"

definition part_c :: part_info where "part_c = rectangle_part ''c'' 2 2"

definition small_sheet :: optimizer where
  "small_sheet = optimizer_on 10 10 [part_a, part_b, part_c]"

definition small_layout :: layout where
  "small_layout = [(part_a, 2, 2, 0), (part_b, 3, 3, 0), (part_c, 6, 6, 0)]"

text \<open>
  A rectangle that covers the default sheet of 2000 by 1000, and a second rectangle of
  side 0.0005 placed inside it.
\<close>

definition sheet_part :: part_info where "sheet_part = rectangle_part ''sheet'' 2000 1000"

definition dot_part :: part_info where "dot_part = rectangle_part ''dot'' (1 / 2000) (1 / 2000)"

definition full_sheet :: optimizer where
  "full_sheet = optimizer_on 2000 1000 [sheet_part, dot_part]"

definition full_layout :: layout where
  "full_layout = [(sheet_part, 1000, 500, 0), (dot_part, 1, 1, 0)]"

text \<open>A sheet of width zero.\<close>

definition flat_sheet :: optimizer where
  "flat_sheet = optimizer_on 0 10 [part_a, part_b, part_c]"

text \<open>
  Three rectangles of areas 4, 2 and 2 on a sheet of 10 by 10, and two genotypes: the
  first places only the first rectangle on the sheet, the second only the other two.
\<close>

definition part_d :: part_info where "part_d = rectangle_part ''d'' 2 2"

definition part_e :: part_info where "part_e = rectangle_part ''e'' 1 2"

definition part_f :: part_info where "part_f = rectangle_part ''f'' 1 2"

definition pair_sheet :: optimizer where
  "pair_sheet = optimizer_on 10 10 [part_d, part_e, part_f]"

definition genotype_one :: "real list" where
  "genotype_one = [5, 5, 0, 20, 20, 0, 20, 20, 0]"

definition genotype_two :: "real list" where
  "genotype_two = [20, 20, 0, 2, 2, 0, 6, 6, 0]"

text \<open>Two parents of three triples each, the first with a cached fitness.\<close>

definition parent_one :: individual where
  "parent_one = \<lparr>genes = [1, 2, 3, 4, 5, 6, 7, 8, 9], fitness_values = Some 40\<rparr>"

definition parent_two :: individual where
  "parent_two = \<lparr>genes = [11, 12, 13, 14, 15, 16, 17, 18, 19], fitness_values = None\<rparr>"

text \<open>Vertex \<open>k\<close> of the polygon that approximates a circle of radius \<open>r\<close>.\<close>

definition vertex :: "real \<Rightarrow> nat \<Rightarrow> real \<times> real" where
  "vertex r k = (r * cos (real k * (2 * pi / 32)), r * sin (real k * (2 * pi / 32)))"

text \<open>
  The shape of a layout entry as both loops compute it: built from the part, rotated
  unless the rotation is zero, then translated.
\<close>

definition transformed :: "'g shapely \<Rightarrow> part_info \<times> real \<times> real \<times> real \<Rightarrow> exn + 'g" where
  "transformed G entry =
     (case entry of (part_info, x, y, rotation) \<Rightarrow>
        and_then (create_part_from_dict G part_info) (\<lambda>created.
        and_then (if rotation \<noteq> 0 then lib (rotate_center G created rotation)
                  else Inr created) (\<lambda>rotated.
          lib (translate G rotated x y))))"

text \<open>The three supported shape kinds.\<close>

definition kinds :: "string set" where
  "kinds = {''rectangle'', ''circle'', ''triangle''}"

text \<open>A part of an unsupported kind, and the rectangle of part \<open>a\<close> with its tag in capitals.\<close>

definition hexagon_part :: part_info where
  "hexagon_part = [''id'' \<mapsto> PStr ''h'', ''type'' \<mapsto> PStr ''hexagon'', ''side'' \<mapsto> PFloat 3]"

definition capital_part :: part_info where
  "capital_part = part_a(''type'' \<mapsto> PStr ''Rectangle'')"

definition mixed_layout :: layout where
  "mixed_layout = [(part_a, 2, 2, 0), (hexagon_part, 5, 5, 0), (part_c, 6, 6, 0)]"

text \<open>
  A catalog of a circle with quantity 3 and a rectangle with no quantity field, and
  catalog entries with quantity zero and with a negative quantity.
\<close>

definition circle_three :: part_info where
  "circle_three = (circle_part ''c1'' 5)(''quantity'' \<mapsto> PInt 3)"

definition sample_catalog :: "part_info list" where
  "sample_catalog = [circle_three, rectangle_part ''r1'' 100 50]"

definition zero_part :: part_info where
  "zero_part = (rectangle_part ''z'' 1 1)(''quantity'' \<mapsto> PInt 0)"

definition negative_part :: part_info where
  "negative_part = [''type'' \<mapsto> PStr ''rectangle'', ''quantity'' \<mapsto> PInt (- 2)]"

section \<open>Basic facts\<close>

lemma and_then_simps:
  "and_then (Inl e) f = Inl e"
  "and_then (Inr v) f = f v"
  by (simp_all add: and_then_def)

section \<open>The two acceptance procedures agree\<close>

lemma valid_loop_overlaps_loop:
  "valid_loop G s ps = and_then (overlaps_loop G s ps) (\<lambda>b. Inr (\<not> b))"
proof (induction ps)
  case Nil
  show ?case by (simp add: and_then_simps)
next
  case (Cons p ps)
  show ?case
  proof (cases "lib (intersects G s p)")
    case (Inl e)
    then show ?thesis by (simp add: and_then_simps)
  next
    case hit: (Inr h)
    show ?thesis
    proof (cases h)
      case False
      with hit Cons show ?thesis by (simp add: and_then_simps)
    next
      case True
      show ?thesis
      proof (cases "lib (intersection_area G s p)")
        case (Inl e)
        with hit True show ?thesis by (simp add: and_then_simps)
      next
        case (Inr a)
        with hit True Cons show ?thesis by (simp add: and_then_simps)
      qed
    qed
  qed
qed

lemma stats_try_evaluate_try:
  "stats_try G self (placed, t, length placed) entry =
     and_then (evaluate_try G self (placed, t) entry) (\<lambda>(p', t'). Inr (p', t', length p'))"
proof -
  obtain part_info x y rotation where e: "entry = (part_info, x, y, rotation)"
    by (cases entry) auto
  show ?thesis
    unfolding e stats_try_def evaluate_try_def valid_loop_overlaps_loop
    by (auto simp: and_then_def split: sum.splits prod.splits)
qed

lemma stats_step_evaluate_step:
  "stats_step G self (placed, t, length placed) entry =
     (case evaluate_step G self (placed, t) entry of (p', t') \<Rightarrow> (p', t', length p'))"
  unfolding stats_step_def evaluate_step_def stats_try_evaluate_try
  by (auto simp: and_then_def split: sum.splits prod.splits)

lemma stats_loop_evaluate_loop:
  "stats_loop G self layout (placed, t, length placed) =
     (case evaluate_loop G self layout (placed, t) of (p', t') \<Rightarrow> (p', t', length p'))"
proof (induction layout arbitrary: placed t)
  case Nil
  show ?case by simp
next
  case (Cons entry rest)
  obtain p' t' where s: "evaluate_step G self (placed, t) entry = (p', t')"
    by (cases "evaluate_step G self (placed, t) entry") auto
  show ?case
    using Cons.IH [of p' t'] by (simp add: stats_step_evaluate_step s)
qed

text \<open>
  C1. For every layout and every sheet, the acceptance loop of the statistics and the
  acceptance loop of the fitness evaluation, started from states that hold the same
  accepted shapes and the same area, end with the same accepted shapes and the same
  total area, and the statistics' counter is the number of accepted shapes. In
  particular this holds from the empty start state of both functions. Since it holds
  for every layout, it holds for every prefix of a layout: the two loops take the same
  decision at every entry.
\<close>

theorem accept_procedures_agree:
  "stats_loop G self layout (placed, t, length placed) =
     (case evaluate_loop G self layout (placed, t) of (p', t') \<Rightarrow> (p', t', length p'))
   \<and> fst (stats_loop G self layout ([], 0, 0)) = fst (evaluate_loop G self layout ([], 0))
   \<and> fst (snd (stats_loop G self layout ([], 0, 0))) = snd (evaluate_loop G self layout ([], 0))
   \<and> snd (snd (stats_loop G self layout ([], 0, 0)))
        = length (fst (evaluate_loop G self layout ([], 0)))"
  using stats_loop_evaluate_loop [of G self layout "[]" 0]
    stats_loop_evaluate_loop [of G self layout placed t]
  by (simp split: prod.splits)

section \<open>Running the model on rectangles\<close>

lemma lower_rectangle: "lower ''rectangle'' = ''rectangle''"
  unfolding lower_def by code_simp

lemma create_rectangle_part:
  "create_part_from_dict rectangles (rectangle_part name w h)
     = Inr (ring_box (- w / 2) (- h / 2) (w / 2) (h / 2))"
  by (simp add: create_part_from_dict_def rectangle_part_def getitem_def py_lower_def
      lower_rectangle as_number_def and_then_simps lib_def rectangles_def plane_def)

lemma ring_bounds_translated_box:
  "minx \<le> maxx \<Longrightarrow> miny \<le> maxy \<Longrightarrow>
   ring_bounds (ring_translate (ring_box minx miny maxx maxy) x y)
     = (minx + x, miny + y, maxx + x, maxy + y)"
  by (simp add: ring_bounds_def ring_translate_def ring_box_def min_def max_def)

lemma ring_area_translated_box:
  assumes "minx \<le> maxx" "miny \<le> maxy"
  shows "ring_area (ring_translate (ring_box minx miny maxx maxy) x y)
     = (maxx - minx) * (maxy - miny)"
proof -
  have "shoelace (closed (ring_translate (ring_box minx miny maxx maxy) x y))
      = 2 * ((maxx - minx) * (maxy - miny))"
   by (simp add: ring_translate_def ring_box_def closed_def algebra_simps)
  moreover have "0 \<le> (maxx - minx) * (maxy - miny)" using assms by simp
  ultimately show ?thesis by (simp add: ring_area_def)
qed

lemma rectangles_simps:
  "translate rectangles r x y = Some (ring_translate r x y)"
  "bounds rectangles = ring_bounds"
  "area rectangles = ring_area"
  "intersects rectangles a b = Some (rect_intersects a b)"
  "intersection_area rectangles a b = Some (rect_intersection_area a b)"
  by (simp_all add: rectangles_def plane_def)

lemmas rect_eval = create_rectangle_part rectangles_simps ring_bounds_translated_box
  ring_area_translated_box rect_intersects_def rect_intersection_area_def lib_def and_then_simps

lemma small_layout_placed:
  "evaluate_loop rectangles small_sheet small_layout ([], 0)
     = ([ring_translate (ring_box (- 2) (- 2) 2 2) 2 2,
         ring_translate (ring_box (- 1) (- 1) 1 1) 6 6], 20)"
  by (simp add: small_sheet_def small_layout_def optimizer_on_def part_a_def part_b_def
      part_c_def evaluate_step_def evaluate_try_def rect_eval)

section \<open>The invariant of the acceptance loop\<close>

lemma overlaps_loop_clear:
  "overlaps_loop G s ps = Inr False \<Longrightarrow> q \<in> set ps \<Longrightarrow> \<not> exceeds G s q"
proof (induction ps)
  case Nil
  then show ?case by simp
next
  case (Cons p ps)
  from Cons.prems(1) have here: "\<not> exceeds G s p" and rest: "overlaps_loop G s ps = Inr False"
    by (auto simp: exceeds_def and_then_def lib_def split: option.splits if_splits)
  from Cons.prems(2) have "q = p \<or> q \<in> set ps" by auto
  then show ?case using here rest Cons.IH Cons.prems(2) by blast
qed

lemma evaluate_try_cases:
  assumes "evaluate_try G self (placed, t) entry = Inr (p', t')"
  shows "(p' = placed \<and> t' = t) \<or>
         (\<exists>s. p' = placed @ [s] \<and> t' = t + area G s \<and> within_sheet G self s \<and>
              (\<forall>q \<in> set placed. \<not> exceeds G s q))"
proof -
  obtain part_info x y rotation where e: "entry = (part_info, x, y, rotation)"
    by (cases entry) auto
  show ?thesis
    using assms unfolding e evaluate_try_def
    by (auto simp: and_then_def within_sheet_def dest: overlaps_loop_clear
        split: sum.splits prod.splits if_splits)
qed

lemma evaluate_step_cases:
  assumes "evaluate_step G self (placed, t) entry = (p', t')"
  shows "(p' = placed \<and> t' = t) \<or>
         (\<exists>s. p' = placed @ [s] \<and> t' = t + area G s \<and> within_sheet G self s \<and>
              (\<forall>q \<in> set placed. \<not> exceeds G s q))"
proof (cases "evaluate_try G self (placed, t) entry")
  case (Inl e)
  with assms show ?thesis by (simp add: evaluate_step_def)
next
  case (Inr st)
  with assms have "evaluate_try G self (placed, t) entry = Inr (p', t')"
    by (simp add: evaluate_step_def)
  then show ?thesis by (rule evaluate_try_cases)
qed

lemma accepted_ok_Nil: "accepted_ok G self []"
  by (simp add: accepted_ok_def)

lemma accepted_ok_snoc:
  assumes "accepted_ok G self placed" "within_sheet G self s"
    "\<forall>q \<in> set placed. \<not> exceeds G s q"
  shows "accepted_ok G self (placed @ [s])"
  unfolding accepted_ok_def
proof (intro conjI ballI allI impI)
  fix q assume "q \<in> set (placed @ [s])"
  then show "within_sheet G self q" using assms(1,2) by (auto simp: accepted_ok_def)
next
  fix j i assume j: "j < length (placed @ [s])" and i: "i < j"
  show "\<not> exceeds G ((placed @ [s]) ! j) ((placed @ [s]) ! i)"
  proof (cases "j < length placed")
    case True
    then show ?thesis using assms(1) i by (simp add: accepted_ok_def nth_append)
  next
    case False
    with j have jl: "j = length placed" by simp
    with i have "placed ! i \<in> set placed" by simp
    then show ?thesis using assms(3) i jl by (simp add: nth_append)
  qed
qed

lemma evaluate_step_ok:
  "accepted_ok G self placed \<Longrightarrow> accepted_ok G self (fst (evaluate_step G self (placed, t) entry))"
proof -
  assume ok: "accepted_ok G self placed"
  obtain p' t' where s: "evaluate_step G self (placed, t) entry = (p', t')"
    by (cases "evaluate_step G self (placed, t) entry") auto
  from evaluate_step_cases [OF s] ok show ?thesis
    by (auto simp: s intro: accepted_ok_snoc)
qed

lemma evaluate_loop_ok:
  "accepted_ok G self placed \<Longrightarrow> accepted_ok G self (fst (evaluate_loop G self layout (placed, t)))"
proof (induction layout arbitrary: placed t)
  case Nil
  then show ?case by simp
next
  case (Cons entry rest)
  obtain p' t' where s: "evaluate_step G self (placed, t) entry = (p', t')"
    by (cases "evaluate_step G self (placed, t) entry") auto
  from evaluate_step_ok [OF Cons.prems, of t entry] have "accepted_ok G self p'" by (simp add: s)
  from Cons.IH [OF this, of t'] show ?case by (simp add: s)
qed

text \<open>
  C3. The accepted shapes are in order at every step of the acceptance loop, in the
  fitness evaluation and in the statistics alike: the empty start list is in order; a
  step from a list in order gives a list in order; so does every run of the loop. In
  order means that every accepted shape has its bounds within
  \<open>[0, sheet_width] \<times> [0, sheet_height]\<close> and that no accepted shape intersects a shape
  accepted before it in an area above \<open>1e-6\<close>.
\<close>

theorem accepted_shapes_invariant:
  "accepted_ok G self []
   \<and> (accepted_ok G self placed \<longrightarrow>
        accepted_ok G self (fst (evaluate_step G self (placed, t) entry))
      \<and> accepted_ok G self (fst (stats_step G self (placed, t, length placed) entry))
      \<and> accepted_ok G self (fst (evaluate_loop G self layout (placed, t)))
      \<and> accepted_ok G self (fst (stats_loop G self layout (placed, t, length placed))))
   \<and> accepted_ok G self (fst (evaluate_loop G self layout ([], 0)))
   \<and> accepted_ok G self (fst (stats_loop G self layout ([], 0, 0)))"
proof -
  have stats_step_fst: "fst (stats_step G self (p, a, length p) e) = fst (evaluate_step G self (p, a) e)" for p a e
    by (simp add: stats_step_evaluate_step split: prod.splits)
  have stats_loop_fst: "fst (stats_loop G self l (p, a, length p)) = fst (evaluate_loop G self l (p, a))" for p a l
    by (simp add: stats_loop_evaluate_loop split: prod.splits)
  have start: "fst (stats_loop G self layout ([], 0, 0)) = fst (evaluate_loop G self layout ([], 0))"
    using stats_loop_fst [of layout "[]" 0] by simp
  show ?thesis
    using evaluate_step_ok [of G self placed t entry] evaluate_loop_ok [of G self placed layout t]
      evaluate_loop_ok [OF accepted_ok_Nil, of G self layout 0]
    by (simp add: accepted_ok_Nil stats_step_fst stats_loop_fst start)
qed


theorem accepted_shapes_invariant_witness:
  "fst (evaluate_loop rectangles small_sheet small_layout ([], 0))
     = [ring_translate (ring_box (- 2) (- 2) 2 2) 2 2,
        ring_translate (ring_box (- 1) (- 1) 1 1) 6 6]
   \<and> within_sheet rectangles small_sheet (ring_translate (ring_box (- 2) (- 2) 2 2) 2 2)
   \<and> within_sheet rectangles small_sheet (ring_translate (ring_box (- 1) (- 1) 1 1) 6 6)
   \<and> \<not> exceeds rectangles (ring_translate (ring_box (- 1) (- 1) 1 1) 6 6)
                            (ring_translate (ring_box (- 2) (- 2) 2 2) 2 2)"
  using accepted_shapes_invariant [of rectangles small_sheet "[]" 0 "(part_a, 2, 2, 0)" small_layout]
  unfolding small_layout_placed
  by (simp add: accepted_ok_def less_Suc_eq)

section \<open>Utilization\<close>

lemma evaluate_step_added:
  "\<exists>added. evaluate_step G self (placed, t) entry = (placed @ added, t + sum_list (map (area G) added))
       \<and> (\<forall>s \<in> set added. within_sheet G self s)"
proof -
  obtain p' t' where s: "evaluate_step G self (placed, t) entry = (p', t')"
    by (cases "evaluate_step G self (placed, t) entry") auto
  from evaluate_step_cases [OF s] show ?thesis
  proof
    assume "p' = placed \<and> t' = t"
    then have "evaluate_step G self (placed, t) entry = (placed @ [], t + sum_list (map (area G) []))
       \<and> (\<forall>s \<in> set []. within_sheet G self s)" using s by simp
    then show ?thesis by blast
  next
    assume "\<exists>s. p' = placed @ [s] \<and> t' = t + area G s \<and> within_sheet G self s \<and>
              (\<forall>q \<in> set placed. \<not> exceeds G s q)"
    then obtain sh where "p' = placed @ [sh]" "t' = t + area G sh" "within_sheet G self sh" by blast
    then have "evaluate_step G self (placed, t) entry = (placed @ [sh], t + sum_list (map (area G) [sh]))
       \<and> (\<forall>s \<in> set [sh]. within_sheet G self s)" using s by simp
    then show ?thesis by blast
  qed
qed

lemma evaluate_loop_added:
  "\<exists>added. evaluate_loop G self layout (placed, t) = (placed @ added, t + sum_list (map (area G) added))
       \<and> (\<forall>s \<in> set added. within_sheet G self s)"
proof (induction layout arbitrary: placed t)
  case Nil
  have "evaluate_loop G self [] (placed, t) = (placed @ [], t + sum_list (map (area G) []))
       \<and> (\<forall>s \<in> set []. within_sheet G self s)" by simp
  then show ?case by blast
next
  case (Cons entry rest)
  obtain a1 where a1: "evaluate_step G self (placed, t) entry = (placed @ a1, t + sum_list (map (area G) a1))"
     and w1: "\<forall>s \<in> set a1. within_sheet G self s"
    using evaluate_step_added [of G self placed t entry] by blast
  obtain a2 where a2: "evaluate_loop G self rest (placed @ a1, t + sum_list (map (area G) a1))
       = ((placed @ a1) @ a2, (t + sum_list (map (area G) a1)) + sum_list (map (area G) a2))"
     and w2: "\<forall>s \<in> set a2. within_sheet G self s"
    using Cons.IH [of "placed @ a1" "t + sum_list (map (area G) a1)"] by blast
  have "evaluate_loop G self (entry # rest) (placed, t)
      = (placed @ (a1 @ a2), t + sum_list (map (area G) (a1 @ a2)))
      \<and> (\<forall>s \<in> set (a1 @ a2). within_sheet G self s)"
    using a1 a2 w1 w2 by (auto simp: add.assoc)
  then show ?case by blast
qed

lemma sum_list_nonneg_area:
  "area_nonneg G \<Longrightarrow> 0 \<le> sum_list (map (area G) xs)"
  by (induction xs) (auto simp: area_nonneg_def)

lemma evaluate_total_nonneg:
  assumes "area_nonneg G"
  shows "0 \<le> snd (evaluate_loop G self layout ([], 0))"
proof -
  obtain added where "evaluate_loop G self layout ([], 0) = ([] @ added, 0 + sum_list (map (area G) added))"
    using evaluate_loop_added [of G self layout "[]" 0] by blast
  then show ?thesis using sum_list_nonneg_area [OF assms, of added] by simp
qed

lemma evaluate_total_empty:
  assumes "fst (evaluate_loop G self layout ([], 0)) = []"
  shows "snd (evaluate_loop G self layout ([], 0)) = 0"
proof -
  obtain added where a: "evaluate_loop G self layout ([], 0) = ([] @ added, 0 + sum_list (map (area G) added))"
    using evaluate_loop_added [of G self layout "[]" 0] by blast
  with assms have "added = []" by simp
  with a show ?thesis by simp
qed

lemma evaluate_utilization_nonneg:
  "0 \<le> a \<Longrightarrow> 0 \<le> evaluate_utilization self a"
  by (simp add: evaluate_utilization_def Let_def)

lemma stats_zero_division:
  "sheet_width self * sheet_height self = 0 \<Longrightarrow>
   calculate_layout_stats G self layout = Inl ZeroDivisionError"
  by (simp add: calculate_layout_stats_def Let_def split: prod.splits)

lemma stats_utilization:
  assumes "0 < sheet_width self * sheet_height self"
  shows "map_sum id utilization (calculate_layout_stats G self layout)
       = Inr (evaluate_utilization self (snd (evaluate_loop G self layout ([], 0))))"
proof -
  obtain p' t' where e: "evaluate_loop G self layout ([], 0) = (p', t')"
    by (cases "evaluate_loop G self layout ([], 0)") auto
  have "stats_loop G self layout ([], 0, 0) = (p', t', length p')"
    using stats_loop_evaluate_loop [of G self layout "[]" 0] e by simp
  moreover have "sheet_width self \<noteq> 0" "sheet_height self \<noteq> 0"
    using assms by auto
  ultimately show ?thesis
    using assms e by (simp add: calculate_layout_stats_def evaluate_utilization_def Let_def)
qed

lemma area_nonneg_rectangles: "area_nonneg rectangles"
  by (simp add: area_nonneg_def rectangles_simps ring_area_def)

lemma full_layout_placed:
  "evaluate_loop rectangles full_sheet full_layout ([], 0)
     = ([ring_translate (ring_box (- 1000) (- 500) 1000 500) 1000 500,
         ring_translate (ring_box (- (1 / 4000)) (- (1 / 4000)) (1 / 4000) (1 / 4000)) 1 1],
        8000000000001 / 4000000)"
  by (simp add: full_sheet_def full_layout_def optimizer_on_def sheet_part_def dot_part_def
      evaluate_step_def evaluate_try_def rect_eval)

lemma flat_layout_placed:
  "evaluate_loop rectangles flat_sheet small_layout ([], 0) = ([], 0)"
  by (simp add: flat_sheet_def small_layout_def optimizer_on_def part_a_def part_b_def
      part_c_def evaluate_step_def evaluate_try_def rect_eval)

text \<open>
  C2, as amended. For every layout and every sheet, the utilization that the fitness
  evaluation computes is at least 0 (for a library whose areas are never negative), it
  is 0 whenever the sheet area is 0 or less, and it is 0 whenever no part is accepted.
  Whenever the sheet area is positive the statistics return the same utilization. No
  upper bound of 100 is stated, and nothing is stated about the statistics on a sheet
  whose area is not positive.
\<close>

theorem utilization_range:
  "(area_nonneg G \<longrightarrow>
        0 \<le> evaluate_utilization self (snd (evaluate_loop G self layout ([], 0))))
   \<and> (sheet_width self * sheet_height self \<le> 0 \<longrightarrow>
        evaluate_utilization self (snd (evaluate_loop G self layout ([], 0))) = 0)
   \<and> (fst (evaluate_loop G self layout ([], 0)) = [] \<longrightarrow>
        evaluate_utilization self (snd (evaluate_loop G self layout ([], 0))) = 0)
   \<and> (0 < sheet_width self * sheet_height self \<longrightarrow>
        map_sum id utilization (calculate_layout_stats G self layout)
          = Inr (evaluate_utilization self (snd (evaluate_loop G self layout ([], 0)))))"
proof (intro impI conjI)
  assume "area_nonneg G"
  then show "0 \<le> evaluate_utilization self (snd (evaluate_loop G self layout ([], 0)))"
    by (intro evaluate_utilization_nonneg evaluate_total_nonneg)
next
  assume "sheet_width self * sheet_height self \<le> 0"
  then show "evaluate_utilization self (snd (evaluate_loop G self layout ([], 0))) = 0"
    by (simp add: evaluate_utilization_def Let_def)
next
  assume "fst (evaluate_loop G self layout ([], 0)) = []"
  then show "evaluate_utilization self (snd (evaluate_loop G self layout ([], 0))) = 0"
    by (simp add: evaluate_total_empty evaluate_utilization_def Let_def)
next
  assume "0 < sheet_width self * sheet_height self"
  then show "map_sum id utilization (calculate_layout_stats G self layout)
          = Inr (evaluate_utilization self (snd (evaluate_loop G self layout ([], 0))))"
    by (rule stats_utilization)
qed

theorem utilization_range_witness:
  "area_nonneg rectangles
   \<and> 0 < sheet_width small_sheet * sheet_height small_sheet
   \<and> map_sum id utilization (calculate_layout_stats rectangles small_sheet small_layout) = Inr 20
   \<and> sheet_width flat_sheet * sheet_height flat_sheet \<le> 0
   \<and> fst (evaluate_loop rectangles flat_sheet small_layout ([], 0)) = []
   \<and> evaluate_utilization flat_sheet (snd (evaluate_loop rectangles flat_sheet small_layout ([], 0))) = 0"
proof -
  have pos: "0 < sheet_width small_sheet * sheet_height small_sheet"
    by (simp add: small_sheet_def optimizer_on_def)
  have flat: "sheet_width flat_sheet * sheet_height flat_sheet \<le> 0"
    by (simp add: flat_sheet_def optimizer_on_def)
  have u: "evaluate_utilization small_sheet 20 = 20"
    by (simp add: evaluate_utilization_def small_sheet_def optimizer_on_def)
  show ?thesis
    using utilization_range [of rectangles small_sheet small_layout]
      utilization_range [of rectangles flat_sheet small_layout]
      area_nonneg_rectangles pos flat
    by (simp add: small_layout_placed flat_layout_placed u)
qed

text \<open>
  C2 as stated fails in its upper bound. A rectangle of 2000 by 1000 covers the sheet; a
  rectangle of side 0.0005 inside it overlaps it in an area of 2.5e-7, which is not
  above the tolerance 1e-6, so both are accepted and the utilization, in the fitness
  evaluation and in the statistics, is above 100.
\<close>

theorem utilization_bound_counterexample:
  "evaluate_utilization full_sheet (snd (evaluate_loop rectangles full_sheet full_layout ([], 0)))
     = 8000000000001 / 80000000000
   \<and> map_sum id utilization (calculate_layout_stats rectangles full_sheet full_layout)
     = Inr (8000000000001 / 80000000000)
   \<and> \<not> (8000000000001 / 80000000000 \<le> (100 :: real))"
proof -
  have u: "evaluate_utilization full_sheet (snd (evaluate_loop rectangles full_sheet full_layout ([], 0)))
     = 8000000000001 / 80000000000"
    unfolding full_layout_placed
    by (simp add: evaluate_utilization_def full_sheet_def optimizer_on_def)
  have "0 < sheet_width full_sheet * sheet_height full_sheet"
    by (simp add: full_sheet_def optimizer_on_def)
  from stats_utilization [OF this, of rectangles full_layout] u show ?thesis by simp
qed

text \<open>
  On a sheet of area zero the statistics raise \<open>ZeroDivisionError\<close>, where the fitness
  evaluation returns a utilization of 0.
\<close>

lemma stats_zero_division_example:
  "calculate_layout_stats rectangles flat_sheet small_layout = Inl ZeroDivisionError"
  using stats_zero_division [of flat_sheet rectangles small_layout]
  by (simp add: flat_sheet_def optimizer_on_def)

section \<open>Decoding\<close>

lemma take3_drop:
  "n + 3 \<le> length g \<Longrightarrow> take 3 (drop n g) = [g ! n, g ! (n + 1), g ! (n + 2)]"
  by (auto simp: list_eq_iff_nth_eq less_Suc_eq numeral_3_eq_3)

lemma decode_loop_spec:
  "3 * (i + length ps) \<le> length g \<Longrightarrow>
   decode_loop i ps g
     = Inr (map (\<lambda>k. (ps ! k, g ! (3 * (i + k)), g ! (3 * (i + k) + 1), g ! (3 * (i + k) + 2)))
              [0..<length ps])"
proof (induction ps arbitrary: i)
  case Nil
  show ?case by simp
next
  case (Cons p ps)
  have len: "i * 3 + 3 \<le> length g" using Cons.prems by simp
  have rest: "3 * (Suc i + length ps) \<le> length g" using Cons.prems by simp
  show ?case
    by (simp add: take3_drop [OF len] Cons.IH [OF rest] and_then_simps map_upt_Suc
        algebra_simps del: upt_Suc)
qed

lemma decode_individual_spec:
  "3 * length (parts self) \<le> length g \<Longrightarrow>
   decode_individual self g = Inr (spec_decode (parts self) g)"
  using decode_loop_spec [of 0 "parts self" g]
  by (simp add: decode_individual_def spec_decode_def)

section \<open>Areas of rings\<close>

lemma shoelace_const_fst:
  "r \<noteq> [] \<Longrightarrow> \<forall>p \<in> set r. fst p = c \<Longrightarrow> shoelace r = c * (snd (last r) - snd (hd r))"
  by (induction r rule: shoelace.induct) (auto simp: algebra_simps)

lemma shoelace_const_snd:
  "r \<noteq> [] \<Longrightarrow> \<forall>p \<in> set r. snd p = c \<Longrightarrow> shoelace r = c * (fst (hd r) - fst (last r))"
  by (induction r rule: shoelace.induct) (auto simp: algebra_simps)

lemma ring_area_const_fst:
  assumes "\<forall>p \<in> set r. fst p = c"
  shows "ring_area r = 0"
proof (cases r)
  case Nil
  then show ?thesis by (simp add: ring_area_def closed_def)
next
  case (Cons p ps)
  have "shoelace (closed r) = c * (snd (last (closed r)) - snd (hd (closed r)))"
    using assms Cons by (intro shoelace_const_fst) (auto simp: closed_def)
  also have "\<dots> = 0" using Cons by (simp add: closed_def)
  finally show ?thesis by (simp add: ring_area_def)
qed

lemma ring_area_const_snd:
  assumes "\<forall>p \<in> set r. snd p = c"
  shows "ring_area r = 0"
proof (cases r)
  case Nil
  then show ?thesis by (simp add: ring_area_def closed_def)
next
  case (Cons p ps)
  have "shoelace (closed r) = c * (fst (hd (closed r)) - fst (last (closed r)))"
    using assms Cons by (intro shoelace_const_snd) (auto simp: closed_def)
  also have "\<dots> = 0" using Cons by (simp add: closed_def)
  finally show ?thesis by (simp add: ring_area_def)
qed

lemma Min_Max_const:
  fixes xs :: "real list"
  assumes "xs \<noteq> []" "\<not> Min (set xs) < Max (set xs)" "x \<in> set xs"
  shows "x = Min (set xs)"
proof -
  have "Min (set xs) \<le> x" "x \<le> Max (set xs)" using assms(3) by simp_all
  with assms(2) show ?thesis by simp
qed

lemma ring_area_extent:
  assumes "ring_area r \<noteq> 0"
  shows "(case ring_bounds r of (b0, b1, b2, b3) \<Rightarrow> b0 < b2 \<and> b1 < b3)"
proof -
  have ne: "r \<noteq> []" using assms by (auto simp: ring_area_def closed_def)
  have x: "Min (set (map fst r)) < Max (set (map fst r))"
  proof (rule ccontr)
    assume n: "\<not> Min (set (map fst r)) < Max (set (map fst r))"
    have "\<forall>p \<in> set r. fst p = Min (set (map fst r))"
    proof
      fix p assume "p \<in> set r"
      then have "fst p \<in> set (map fst r)" by simp
      with n ne show "fst p = Min (set (map fst r))"
        by (intro Min_Max_const) simp_all
    qed
    then have "ring_area r = 0" by (rule ring_area_const_fst)
    with assms show False by simp
  qed
  have y: "Min (set (map snd r)) < Max (set (map snd r))"
  proof (rule ccontr)
    assume n: "\<not> Min (set (map snd r)) < Max (set (map snd r))"
    have "\<forall>p \<in> set r. snd p = Min (set (map snd r))"
    proof
      fix p assume "p \<in> set r"
      then have "snd p \<in> set (map snd r)" by simp
      with n ne show "snd p = Min (set (map snd r))"
        by (intro Min_Max_const) simp_all
    qed
    then have "ring_area r = 0" by (rule ring_area_const_snd)
    with assms show False by simp
  qed
  from x y ne show ?thesis by (simp add: ring_bounds_def)
qed

lemma area_needs_extent_rectangles: "area_needs_extent rectangles"
  unfolding area_needs_extent_def rectangles_simps
  using ring_area_extent by blast

section \<open>The fitness value\<close>

lemma evaluate_layout_formula:
  assumes "3 * length (parts self) \<le> length g"
  shows "evaluate_layout G self g =
       Inr (evaluate_utilization self (snd (accepted G self g)) *
             (1 / 2 + 1 / 2 * (if length (parts self) = 0 then 0
                               else real (length (fst (accepted G self g)))
                                    / real (length (parts self)))))"
  by (simp add: evaluate_layout_def decode_individual_spec [OF assms] and_then_simps
      evaluate_fitness_def evaluate_placement_ratio_def accepted_def Let_def split: prod.splits)

lemma sum_list_nonzero:
  fixes f :: "'a \<Rightarrow> real"
  shows "sum_list (map f xs) \<noteq> 0 \<Longrightarrow> \<exists>x \<in> set xs. f x \<noteq> 0"
  by (induction xs) auto

lemma accepted_area_sheet:
  assumes ext: "area_needs_extent G" and nz: "snd (accepted G self g) \<noteq> 0"
  shows "0 < sheet_width self * sheet_height self"
proof -
  obtain added where a: "accepted G self g = ([] @ added, 0 + sum_list (map (area G) added))"
    and w: "\<forall>s \<in> set added. within_sheet G self s"
    unfolding accepted_def
    using evaluate_loop_added [of G self "spec_decode (parts self) g" "[]" 0] by blast
  from a nz have "sum_list (map (area G) added) \<noteq> 0" by simp
  then obtain s where s: "s \<in> set added" "area G s \<noteq> 0"
    using sum_list_nonzero by blast
  obtain b0 b1 b2 b3 where b: "bounds G s = (b0, b1, b2, b3)"
    by (cases "bounds G s") auto
  from ext s(2) b have "b0 < b2" "b1 < b3" by (auto simp: area_needs_extent_def)
  moreover from w s(1) b have "0 \<le> b0" "0 \<le> b1" "b2 \<le> sheet_width self" "b3 \<le> sheet_height self"
    by (auto simp: within_sheet_def)
  ultimately have "0 < sheet_width self" "0 < sheet_height self" by linarith+
  then show ?thesis by simp
qed

lemma accepted_no_parts:
  "parts self = [] \<Longrightarrow> accepted G self g = ([], 0)"
  by (simp add: accepted_def spec_decode_def)

lemma accepted_one:
  "accepted rectangles pair_sheet genotype_one = ([ring_translate (ring_box (- 1) (- 1) 1 1) 5 5], 4)"
  by (simp add: accepted_def spec_decode_def pair_sheet_def genotype_one_def optimizer_on_def
      part_d_def part_e_def part_f_def evaluate_step_def evaluate_try_def rect_eval upt_rec)

lemma accepted_two:
  "accepted rectangles pair_sheet genotype_two
     = ([ring_translate (ring_box (- (1 / 2)) (- 1) (1 / 2) 1) 2 2,
         ring_translate (ring_box (- (1 / 2)) (- 1) (1 / 2) 1) 6 6], 4)"
  by (simp add: accepted_def spec_decode_def pair_sheet_def genotype_two_def optimizer_on_def
      part_d_def part_e_def part_f_def evaluate_step_def evaluate_try_def rect_eval upt_rec)

text \<open>
  C4. For a genotype that holds a triple for each of the \<open>N\<close> parts, the fitness that the
  evaluation returns is the utilization times \<open>0.5 + 0.5 * placement_ratio\<close>, where the
  placement ratio is the number of accepted shapes divided by \<open>N\<close>, and 0 when \<open>N = 0\<close>.
  Consequently two genotypes with the same nonzero accepted area and different numbers
  of accepted shapes get different fitness values; this rests on the library giving a
  nonzero area only to a geometry that extends in both directions, so that a nonzero
  accepted area needs a sheet of positive area.
\<close>

theorem fitness_blend:
  "(3 * length (parts self) \<le> length g \<longrightarrow>
      evaluate_layout G self g =
        Inr (evaluate_utilization self (snd (accepted G self g)) *
              (1 / 2 + 1 / 2 * (if length (parts self) = 0 then 0
                                else real (length (fst (accepted G self g)))
                                     / real (length (parts self))))))
   \<and> (area_needs_extent G
        \<and> 3 * length (parts self) \<le> length g1 \<and> 3 * length (parts self) \<le> length g2
        \<and> snd (accepted G self g1) = snd (accepted G self g2)
        \<and> snd (accepted G self g1) \<noteq> 0
        \<and> length (fst (accepted G self g1)) \<noteq> length (fst (accepted G self g2))
      \<longrightarrow> evaluate_layout G self g1 \<noteq> evaluate_layout G self g2)"
proof (intro conjI impI)
  assume "3 * length (parts self) \<le> length g"
  then show "evaluate_layout G self g =
        Inr (evaluate_utilization self (snd (accepted G self g)) *
              (1 / 2 + 1 / 2 * (if length (parts self) = 0 then 0
                                else real (length (fst (accepted G self g)))
                                     / real (length (parts self)))))"
    by (rule evaluate_layout_formula)
next
  assume h: "area_needs_extent G
        \<and> 3 * length (parts self) \<le> length g1 \<and> 3 * length (parts self) \<le> length g2
        \<and> snd (accepted G self g1) = snd (accepted G self g2)
        \<and> snd (accepted G self g1) \<noteq> 0
        \<and> length (fst (accepted G self g1)) \<noteq> length (fst (accepted G self g2))"
  define n where "n = length (parts self)"
  define a where "a = snd (accepted G self g1)"
  define c1 where "c1 = length (fst (accepted G self g1))"
  define c2 where "c2 = length (fst (accepted G self g2))"
  define sheet where "sheet = sheet_width self * sheet_height self"
  from h have sheet_pos: "0 < sheet"
    unfolding sheet_def by (intro accepted_area_sheet [of G self g1]) simp_all
  from h have "parts self \<noteq> []" using accepted_no_parts [of self G g1] by auto
  then have n_pos: "0 < n" by (simp add: n_def)
  from h have a_nz: "a \<noteq> 0" and a2: "snd (accepted G self g2) = a" and c: "c1 \<noteq> c2"
    by (simp_all add: a_def c1_def c2_def)
  have u: "evaluate_utilization self a = a / sheet * 100"
    using sheet_pos by (simp add: evaluate_utilization_def sheet_def Let_def)
  have u_nz: "a / sheet * 100 \<noteq> 0" using a_nz sheet_pos by simp
  have e1: "evaluate_layout G self g1 = Inr (a / sheet * 100 * (1 / 2 + 1 / 2 * (real c1 / real n)))"
    using h n_pos evaluate_layout_formula [of self g1 G] u
    by (simp add: n_def a_def c1_def)
  have e2: "evaluate_layout G self g2 = Inr (a / sheet * 100 * (1 / 2 + 1 / 2 * (real c2 / real n)))"
    using h n_pos evaluate_layout_formula [of self g2 G] u a2
    by (simp add: n_def c2_def)
  have "real c1 / real n \<noteq> real c2 / real n" using c n_pos by simp
  then have "(1 / 2 + 1 / 2 * (real c1 / real n)) \<noteq> (1 / 2 + 1 / 2 * (real c2 / real n))" by simp
  with u_nz have "a / sheet * 100 * (1 / 2 + 1 / 2 * (real c1 / real n))
                \<noteq> a / sheet * 100 * (1 / 2 + 1 / 2 * (real c2 / real n))"
    by (simp only: mult_cancel_left) simp
  with e1 e2 show "evaluate_layout G self g1 \<noteq> evaluate_layout G self g2" by simp
qed

theorem fitness_blend_witness:
  "area_needs_extent rectangles
   \<and> 3 * length (parts pair_sheet) \<le> length genotype_one
   \<and> 3 * length (parts pair_sheet) \<le> length genotype_two
   \<and> snd (accepted rectangles pair_sheet genotype_one) = 4
   \<and> snd (accepted rectangles pair_sheet genotype_two) = 4
   \<and> length (fst (accepted rectangles pair_sheet genotype_one)) = 1
   \<and> length (fst (accepted rectangles pair_sheet genotype_two)) = 2
   \<and> evaluate_layout rectangles pair_sheet genotype_one = Inr (8 / 3)
   \<and> evaluate_layout rectangles pair_sheet genotype_two = Inr (10 / 3)
   \<and> evaluate_layout rectangles pair_sheet genotype_one
       \<noteq> evaluate_layout rectangles pair_sheet genotype_two"
proof -
  have l1: "3 * length (parts pair_sheet) \<le> length genotype_one"
    and l2: "3 * length (parts pair_sheet) \<le> length genotype_two"
    by (simp_all add: pair_sheet_def optimizer_on_def genotype_one_def genotype_two_def)
  have n: "length (parts pair_sheet) = 3" by (simp add: pair_sheet_def optimizer_on_def)
  have u: "evaluate_utilization pair_sheet 4 = 4"
    by (simp add: evaluate_utilization_def pair_sheet_def optimizer_on_def)
  show ?thesis
    using fitness_blend [of pair_sheet genotype_one rectangles genotype_one genotype_two]
      fitness_blend [of pair_sheet genotype_two rectangles genotype_one genotype_two]
      area_needs_extent_rectangles l1 l2
    by (simp add: accepted_one accepted_two n u)
qed

section \<open>Crossover at a part boundary\<close>

lemma crossover_cut:
  assumes l1: "length (genes ind1) = 3 * N" and N: "2 \<le> N"
  shows "crossover u ind1 ind2 =
           Inr (ind1\<lparr>genes := take (3 * (1 + u mod (N - 1))) (genes ind1)
                                @ drop (3 * (1 + u mod (N - 1))) (genes ind2),
                      fitness_values := None\<rparr>,
                ind2\<lparr>genes := take (3 * (1 + u mod (N - 1))) (genes ind2)
                                @ drop (3 * (1 + u mod (N - 1))) (genes ind1),
                      fitness_values := None\<rparr>)"
proof -
  have "3 < length (genes ind1)" using l1 N by simp
  moreover have "length (genes ind1) div 3 = N" using l1 by simp
  moreover have "1 < N" using N by simp
  ultimately show ?thesis
    by (simp add: crossover_def randrange_def and_then_simps Let_def mult.commute)
qed

lemma cut_range:
  fixes N :: nat
  assumes "2 \<le> N"
  shows "3 dvd 3 * (1 + u mod (N - 1))" "3 \<le> 3 * (1 + u mod (N - 1))"
    "3 * (1 + u mod (N - 1)) \<le> 3 * N - 3"
proof -
  have "u mod (N - 1) < N - 1" using assms by simp
  then show "3 * (1 + u mod (N - 1)) \<le> 3 * N - 3" by simp
qed simp_all

lemma cut_bij:
  fixes N :: nat
  assumes "2 \<le> N"
  shows "bij_betw (\<lambda>u. 3 * (1 + u mod (N - 1))) {0..<N - 1}
           {c. 3 dvd c \<and> 3 \<le> c \<and> c \<le> 3 * (N - 1)}"
proof (rule bij_betw_byWitness [where f' = "\<lambda>c. c div 3 - 1"])
  show "\<forall>x \<in> {0..<N - 1}. 3 * (1 + x mod (N - 1)) div 3 - 1 = x"
    by simp
  show "\<forall>y \<in> {c. 3 dvd c \<and> 3 \<le> c \<and> c \<le> 3 * (N - 1)}. 3 * (1 + (y div 3 - 1) mod (N - 1)) = y"
  proof
    fix y assume "y \<in> {c. 3 dvd c \<and> 3 \<le> c \<and> c \<le> 3 * (N - 1)}"
    then obtain k where k: "y = 3 * k" and k1: "1 \<le> k" and k2: "k \<le> N - 1" by auto
    then have "(k - 1) mod (N - 1) = k - 1" by simp
    with k k1 show "3 * (1 + (y div 3 - 1) mod (N - 1)) = y" by simp
  qed
  show "(\<lambda>u. 3 * (1 + u mod (N - 1))) ` {0..<N - 1} \<subseteq> {c. 3 dvd c \<and> 3 \<le> c \<and> c \<le> 3 * (N - 1)}"
    by auto
  show "(\<lambda>c. c div 3 - 1) ` {c. 3 dvd c \<and> 3 \<le> c \<and> c \<le> 3 * (N - 1)} \<subseteq> {0..<N - 1}"
    using assms by auto
qed

text \<open>
  C5. For two parents of \<open>3 N\<close> genes each with \<open>N \<ge> 2\<close>, crossover with the random draw
  \<open>u\<close> cuts at \<open>3 * (1 + u mod (N - 1))\<close>: the offspring are the parents with their tails
  from the cut index swapped and their cached fitness deleted. The cut index is a
  multiple of 3, at least 3 and at most the length less 3. The draws \<open>0, ..., N - 2\<close>
  correspond one to one to the cut indices \<open>3, 6, ..., 3 (N - 1)\<close>, so a uniform draw
  gives a uniform cut index. Each offspring has \<open>3 N\<close> genes, and the two together as
  many as the parents.
\<close>

theorem crossover_cut_and_swap:
  "length (genes ind1) = 3 * N \<and> length (genes ind2) = 3 * N \<and> 2 \<le> N \<longrightarrow>
     crossover u ind1 ind2 =
       Inr (ind1\<lparr>genes := take (3 * (1 + u mod (N - 1))) (genes ind1)
                            @ drop (3 * (1 + u mod (N - 1))) (genes ind2),
                  fitness_values := None\<rparr>,
            ind2\<lparr>genes := take (3 * (1 + u mod (N - 1))) (genes ind2)
                            @ drop (3 * (1 + u mod (N - 1))) (genes ind1),
                  fitness_values := None\<rparr>)
   \<and> 3 dvd 3 * (1 + u mod (N - 1))
   \<and> 3 \<le> 3 * (1 + u mod (N - 1))
   \<and> 3 * (1 + u mod (N - 1)) \<le> length (genes ind1) - 3
   \<and> bij_betw (\<lambda>u. 3 * (1 + u mod (N - 1))) {0..<N - 1}
        {c. 3 dvd c \<and> 3 \<le> c \<and> c \<le> 3 * (N - 1)}
   \<and> length (take (3 * (1 + u mod (N - 1))) (genes ind1)
              @ drop (3 * (1 + u mod (N - 1))) (genes ind2)) = 3 * N
   \<and> length (take (3 * (1 + u mod (N - 1))) (genes ind2)
              @ drop (3 * (1 + u mod (N - 1))) (genes ind1)) = 3 * N
   \<and> length (take (3 * (1 + u mod (N - 1))) (genes ind1)
              @ drop (3 * (1 + u mod (N - 1))) (genes ind2))
     + length (take (3 * (1 + u mod (N - 1))) (genes ind2)
              @ drop (3 * (1 + u mod (N - 1))) (genes ind1))
     = length (genes ind1) + length (genes ind2)"
proof (intro impI)
  assume h: "length (genes ind1) = 3 * N \<and> length (genes ind2) = 3 * N \<and> 2 \<le> N"
  then have l1: "length (genes ind1) = 3 * N" and l2: "length (genes ind2) = 3 * N"
    and N: "2 \<le> N" by simp_all
  note r = cut_range [OF N, of u]
  have le: "3 * (1 + u mod (N - 1)) \<le> 3 * N" using r(3) by simp
  show "crossover u ind1 ind2 =
       Inr (ind1\<lparr>genes := take (3 * (1 + u mod (N - 1))) (genes ind1)
                            @ drop (3 * (1 + u mod (N - 1))) (genes ind2),
                  fitness_values := None\<rparr>,
            ind2\<lparr>genes := take (3 * (1 + u mod (N - 1))) (genes ind2)
                            @ drop (3 * (1 + u mod (N - 1))) (genes ind1),
                  fitness_values := None\<rparr>)
   \<and> 3 dvd 3 * (1 + u mod (N - 1))
   \<and> 3 \<le> 3 * (1 + u mod (N - 1))
   \<and> 3 * (1 + u mod (N - 1)) \<le> length (genes ind1) - 3
   \<and> bij_betw (\<lambda>u. 3 * (1 + u mod (N - 1))) {0..<N - 1}
        {c. 3 dvd c \<and> 3 \<le> c \<and> c \<le> 3 * (N - 1)}
   \<and> length (take (3 * (1 + u mod (N - 1))) (genes ind1)
              @ drop (3 * (1 + u mod (N - 1))) (genes ind2)) = 3 * N
   \<and> length (take (3 * (1 + u mod (N - 1))) (genes ind2)
              @ drop (3 * (1 + u mod (N - 1))) (genes ind1)) = 3 * N
   \<and> length (take (3 * (1 + u mod (N - 1))) (genes ind1)
              @ drop (3 * (1 + u mod (N - 1))) (genes ind2))
     + length (take (3 * (1 + u mod (N - 1))) (genes ind2)
              @ drop (3 * (1 + u mod (N - 1))) (genes ind1))
     = length (genes ind1) + length (genes ind2)"
    using crossover_cut [OF l1 N, of u ind2] r cut_bij [OF N] le
    by (simp add: l1 l2 min_def)
qed

theorem crossover_cut_and_swap_witness:
  "length (genes parent_one) = 3 * 3 \<and> length (genes parent_two) = 3 * 3 \<and> (2 :: nat) \<le> 3
   \<and> crossover 5 parent_one parent_two =
       Inr (\<lparr>genes = [1, 2, 3, 4, 5, 6, 17, 18, 19], fitness_values = None\<rparr>,
            \<lparr>genes = [11, 12, 13, 14, 15, 16, 7, 8, 9], fitness_values = None\<rparr>)"
  using crossover_cut_and_swap [of parent_one 3 parent_two 5]
  by (simp add: parent_one_def parent_two_def)

section \<open>The area of a circle part\<close>

lemma circle_points_vertex: "circle_points r = map (vertex r) [0..<32]"
  by (simp add: circle_points_def angles_def vertex_def comp_def del: upt_Suc)

lemma shoelace_snoc2:
  "shoelace (xs @ [a, b]) = shoelace (xs @ [a]) + (fst a * snd b - fst b * snd a)"
  by (induction xs rule: shoelace.induct) simp_all

lemma vertex_cross:
  "fst (vertex r n) * snd (vertex r (Suc n)) - fst (vertex r (Suc n)) * snd (vertex r n)
     = r * r * sin (2 * pi / 32)"
proof -
  define d where "d = 2 * pi / 32"
  have "sin (real (Suc n) * d - real n * d) = sin d" by (simp add: algebra_simps)
  then have "sin (real (Suc n) * d) * cos (real n * d) - cos (real (Suc n) * d) * sin (real n * d) = sin d"
    by (simp only: sin_diff)
  then have "r * r * (sin (real (Suc n) * d) * cos (real n * d) - cos (real (Suc n) * d) * sin (real n * d)) = r * r * sin d"
    by simp
  then show ?thesis unfolding vertex_def d_def [symmetric] by (simp add: algebra_simps)
qed

lemma map_upt_snoc: "map f [0..<n] @ [f n] = map f [0..<Suc n]"
  by simp

lemma shoelace_vertices:
  "shoelace (map (vertex r) [0..<Suc n]) = real n * (r * r * sin (2 * pi / 32))"
proof (induction n)
  case 0
  show ?case by simp
next
  case (Suc n)
  have two: "map (vertex r) [0..<Suc (Suc n)] = map (vertex r) [0..<n] @ [vertex r n, vertex r (Suc n)]"
    by simp
  have one: "map (vertex r) [0..<n] @ [vertex r n] = map (vertex r) [0..<Suc n]"
    by simp
  have "shoelace (map (vertex r) [0..<Suc (Suc n)])
      = shoelace (map (vertex r) [0..<Suc n]) + r * r * sin (2 * pi / 32)"
    unfolding two shoelace_snoc2 one vertex_cross ..
  then show ?case unfolding Suc.IH by (simp add: algebra_simps)
qed

lemma closed_circle: "closed (circle_points r) = map (vertex r) [0..<Suc 32]"
proof -
  have v: "vertex r 32 = vertex r 0" by (simp add: vertex_def)
  have "circle_points r = vertex r 0 # map (vertex r) [1..<32]"
    unfolding circle_points_vertex by (simp add: upt_conv_Cons del: upt_Suc)
  then have "closed (circle_points r) = circle_points r @ [vertex r 0]"
    by (simp add: closed_def)
  also have "\<dots> = map (vertex r) [0..<32] @ [vertex r 32]"
    by (simp only: circle_points_vertex v)
  also have "\<dots> = map (vertex r) [0..<Suc 32]" by (rule map_upt_snoc)
  finally show ?thesis .
qed

lemma sin_less_arg:
  fixes x :: real
  assumes "0 < x" "x \<le> pi"
  shows "sin x < x"
proof -
  have h: "0 \<le> x / 2" "0 < x / 2" "x / 2 \<le> pi" using assms pi_gt_zero by simp_all
  have c: "cos (x / 2) < 1" using cos_monotone_0_pi [of 0 "x / 2"] h by simp
  have c0: "0 \<le> cos (x / 2)" using assms by (intro cos_ge_zero) simp_all
  have s: "sin (x / 2) \<le> x / 2" using h by (intro sin_x_le_x)
  have s0: "0 < sin (x / 2)" using h assms pi_gt_zero by (intro sin_gt_zero) simp_all
  have "sin x = 2 * sin (x / 2) * cos (x / 2)" using sin_double [of "x / 2"] by simp
  also have "\<dots> < 2 * sin (x / 2) * 1" using c s0 by (intro mult_strict_left_mono) simp_all
  also have "\<dots> \<le> 2 * (x / 2)" using s by simp
  finally show ?thesis by simp
qed

lemma sin_sixteenth: "0 < sin (pi / 16)" "sin (pi / 16) < pi / 16"
proof -
  show "0 < sin (pi / 16)" using pi_gt_zero by (intro sin_gt_zero) simp_all
  show "sin (pi / 16) < pi / 16" using pi_gt_zero by (intro sin_less_arg) simp_all
qed

lemma ring_area_circle: "ring_area (circle_points r) = 16 * r * r * sin (pi / 16)"
proof -
  have "shoelace (closed (circle_points r)) = 32 * (r * r * sin (pi / 16))"
    unfolding closed_circle shoelace_vertices by simp
  moreover have "0 \<le> 32 * (r * r * sin (pi / 16))" using sin_sixteenth(1) by simp
  ultimately show ?thesis by (simp add: ring_area_def)
qed

lemma polygon_below_disc:
  assumes "r \<noteq> 0"
  shows "16 * r * r * sin (pi / 16) < pi * r * r"
proof -
  have "0 < r * r" using assms zero_less_power2 [of r] by (simp add: power2_eq_square)
  moreover have "16 * sin (pi / 16) < pi" using sin_sixteenth(2) by simp
  ultimately have "16 * sin (pi / 16) * (r * r) < pi * (r * r)"
    by (intro mult_strict_right_mono)
  then show ?thesis by (simp add: algebra_simps)
qed

lemma lower_circle: "lower ''circle'' = ''circle''"
  unfolding lower_def by code_simp

lemma plane_simps:
  "Polygon (plane isect iarea) pts = (if length pts < 3 then None else Some pts)"
  "area (plane isect iarea) = ring_area"
  by (simp_all add: plane_def)

lemma length_circle_points: "length (circle_points r) = 32"
  by (simp add: circle_points_def angles_def)

lemma circle_area_facts:
  assumes t: "p ''type'' = Some (PStr t)" and l: "lower t = ''circle''"
    and rad: "p ''radius'' = Some (PFloat r)"
  shows "calculate_part_area p = Inr (PFloat (pi * r * r))"
    and "create_part_from_dict (plane isect iarea) p = Inr (circle_points r)"
  using assms
  by (simp_all add: calculate_part_area_def create_part_from_dict_def getitem_def py_lower_def
      and_then_simps as_number_def lib_def plane_simps length_circle_points)

text \<open>
  C6, as amended. For a circle part with radius \<open>r > 0\<close>, \<open>calculate_part_area\<close> returns
  the area \<open>pi * r * r\<close> of the exact circle, while the polygon of 32 sides that
  \<open>create_part_from_dict\<close> builds, and that the overlap tests and the fitness use, has
  the area \<open>16 * r * r * sin (pi / 16)\<close>, which is strictly smaller.
\<close>

theorem circle_area_and_polygon:
  "p ''type'' = Some (PStr t) \<and> lower t = ''circle'' \<and> p ''radius'' = Some (PFloat r) \<and> 0 < r
   \<longrightarrow> calculate_part_area p = Inr (PFloat (pi * r * r))
     \<and> create_part_from_dict (plane isect iarea) p = Inr (circle_points r)
     \<and> area (plane isect iarea) (circle_points r) = 16 * r * r * sin (pi / 16)
     \<and> 16 * r * r * sin (pi / 16) < pi * r * r"
  using circle_area_facts [of p t r] polygon_below_disc [of r]
  by (simp add: plane_simps ring_area_circle)

lemma circle_part_fields:
  "circle_part name r ''type'' = Some (PStr ''circle'')"
  "circle_part name r ''radius'' = Some (PFloat r)"
  by (simp_all add: circle_part_def)

theorem circle_area_and_polygon_witness:
  "circle_part ''disc'' 2 ''type'' = Some (PStr ''circle'') \<and> lower ''circle'' = ''circle''
   \<and> circle_part ''disc'' 2 ''radius'' = Some (PFloat 2) \<and> (0 :: real) < 2
   \<and> calculate_part_area (circle_part ''disc'' 2) = Inr (PFloat (pi * 4))
   \<and> map_sum id (area rectangles) (create_part_from_dict rectangles (circle_part ''disc'' 2))
        = Inr (64 * sin (pi / 16))
   \<and> 64 * sin (pi / 16) < pi * 4"
  using circle_area_and_polygon [of "circle_part ''disc'' 2" "''circle''" 2
      "\<lambda>a b. Some (rect_intersects a b)" "\<lambda>a b. Some (rect_intersection_area a b)"]
  by (simp add: circle_part_fields lower_circle rectangles_def)

text \<open>
  C6 as stated fails: for the circle of radius 1 the reported area is \<open>pi\<close> and the area
  of the polygon is \<open>16 * sin (pi / 16)\<close>, and the two differ. The area of a ring does
  not depend on the overlap operations of the instance.
\<close>

theorem circle_area_counterexample:
  "calculate_part_area (circle_part ''disc'' 1) = Inr (PFloat pi)
   \<and> map_sum id (area rectangles) (create_part_from_dict rectangles (circle_part ''disc'' 1))
        = Inr (16 * sin (pi / 16))
   \<and> 16 * sin (pi / 16) \<noteq> pi"
proof -
  have "16 * sin (pi / 16) < pi" using sin_sixteenth(2) by simp
  then show ?thesis
    using circle_area_facts(1) [of "circle_part ''disc'' 1" "''circle''" 1]
      circle_area_facts(2) [of "circle_part ''disc'' 1" "''circle''" 1
        "\<lambda>a b. Some (rect_intersects a b)" "\<lambda>a b. Some (rect_intersection_area a b)"]
    by (simp add: circle_part_fields lower_circle rectangles_def plane_simps ring_area_circle)
qed

section \<open>Shape kinds and letter case\<close>

lemma lower_char_idem: "lower_char (lower_char c) = lower_char c"
  unfolding lower_char_def Let_def by auto

lemma lower_idem: "lower (lower s) = lower s"
  by (simp add: lower_def lower_char_idem)

lemma create_depends_on_lower:
  "lower t = lower t' \<Longrightarrow>
   create_part_from_dict G (p(''type'' \<mapsto> PStr t)) = create_part_from_dict G (p(''type'' \<mapsto> PStr t'))"
  by (simp add: create_part_from_dict_def getitem_def py_lower_def and_then_simps)

lemma bounds_depends_on_lower:
  "lower t = lower t' \<Longrightarrow>
   get_part_bounds (p(''type'' \<mapsto> PStr t)) = get_part_bounds (p(''type'' \<mapsto> PStr t'))"
  by (simp add: get_part_bounds_def getitem_def py_lower_def and_then_simps)

lemma area_depends_on_lower:
  "lower t = lower t' \<Longrightarrow>
   calculate_part_area (p(''type'' \<mapsto> PStr t)) = calculate_part_area (p(''type'' \<mapsto> PStr t'))"
  by (simp add: calculate_part_area_def getitem_def py_lower_def and_then_simps)

lemma and_then_ValueError:
  "and_then m f = Inl (ValueError msg) \<Longrightarrow>
   m = Inl (ValueError msg) \<or> (\<exists>v. m = Inr v \<and> f v = Inl (ValueError msg))"
  by (cases m) (simp_all add: and_then_simps)

lemma getitem_not_ValueError: "getitem d k \<noteq> Inl (ValueError msg)"
  by (simp add: getitem_def split: option.splits)

lemma as_number_not_ValueError: "as_number v \<noteq> Inl (ValueError msg)"
  by (simp add: as_number_def split: pyval.splits)

lemma lib_not_ValueError: "lib r \<noteq> Inl (ValueError msg)"
  by (simp add: lib_def split: option.splits)

lemma py_lower_not_ValueError: "py_lower v \<noteq> Inl (ValueError msg)"
  by (simp add: py_lower_def split: pyval.splits)

lemma py_mul_not_ValueError: "py_mul a b \<noteq> Inl (ValueError msg)"
  by (cases "(a, b)" rule: py_mul.cases) simp_all

lemma py_lower_Inr: "py_lower v = Inr s \<Longrightarrow> \<exists>t. v = PStr t \<and> s = lower t"
  by (auto simp: py_lower_def split: pyval.splits)

lemma create_unsupported:
  "p ''type'' = Some (PStr t) \<Longrightarrow> lower t \<notin> kinds \<Longrightarrow>
   create_part_from_dict G p = Inl (unsupported (lower t))"
  by (simp add: create_part_from_dict_def getitem_def py_lower_def and_then_simps kinds_def)

lemma bounds_unsupported:
  "p ''type'' = Some (PStr t) \<Longrightarrow> lower t \<notin> kinds \<Longrightarrow>
   get_part_bounds p = Inl (unsupported (lower t))"
  by (simp add: get_part_bounds_def getitem_def py_lower_def and_then_simps kinds_def)

lemma area_unsupported:
  "p ''type'' = Some (PStr t) \<Longrightarrow> lower t \<notin> kinds \<Longrightarrow>
   calculate_part_area p = Inl (unsupported (lower t))"
  by (simp add: calculate_part_area_def getitem_def py_lower_def and_then_simps kinds_def)

lemma create_ValueError:
  assumes "create_part_from_dict G p = Inl (ValueError msg)"
  shows "\<exists>t. p ''type'' = Some (PStr t) \<and> lower t \<notin> kinds"
proof -
  from assms obtain tv where tv: "getitem p ''type'' = Inr tv"
    by (cases "getitem p ''type''")
       (auto simp: create_part_from_dict_def and_then_simps getitem_not_ValueError)
  from assms tv obtain s where s: "py_lower tv = Inr s"
    by (cases "py_lower tv")
       (auto simp: create_part_from_dict_def and_then_simps py_lower_not_ValueError)
  from py_lower_Inr [OF s] obtain t where t: "tv = PStr t" "s = lower t" by blast
  from tv t have ty: "p ''type'' = Some (PStr t)"
    by (auto simp: getitem_def split: option.splits)
  have "lower t \<notin> kinds"
  proof
    assume "lower t \<in> kinds"
    with assms tv s t show False
      by (auto simp: create_part_from_dict_def and_then_simps kinds_def
          dest!: and_then_ValueError
          simp: getitem_not_ValueError as_number_not_ValueError lib_not_ValueError)
  qed
  with ty show ?thesis by blast
qed

lemma bounds_ValueError:
  assumes "get_part_bounds p = Inl (ValueError msg)"
  shows "\<exists>t. p ''type'' = Some (PStr t) \<and> lower t \<notin> kinds"
proof -
  from assms obtain tv where tv: "getitem p ''type'' = Inr tv"
    by (cases "getitem p ''type''")
       (auto simp: get_part_bounds_def and_then_simps getitem_not_ValueError)
  from assms tv obtain s where s: "py_lower tv = Inr s"
    by (cases "py_lower tv")
       (auto simp: get_part_bounds_def and_then_simps py_lower_not_ValueError)
  from py_lower_Inr [OF s] obtain t where t: "tv = PStr t" "s = lower t" by blast
  from tv t have ty: "p ''type'' = Some (PStr t)"
    by (auto simp: getitem_def split: option.splits)
  have "lower t \<notin> kinds"
  proof
    assume "lower t \<in> kinds"
    with assms tv s t show False
      by (auto simp: get_part_bounds_def and_then_simps kinds_def
          dest!: and_then_ValueError
          simp: getitem_not_ValueError py_mul_not_ValueError)
  qed
  with ty show ?thesis by blast
qed

lemma area_ValueError:
  assumes "calculate_part_area p = Inl (ValueError msg)"
  shows "\<exists>t. p ''type'' = Some (PStr t) \<and> lower t \<notin> kinds"
proof -
  from assms obtain tv where tv: "getitem p ''type'' = Inr tv"
    by (cases "getitem p ''type''")
       (auto simp: calculate_part_area_def and_then_simps getitem_not_ValueError)
  from assms tv obtain s where s: "py_lower tv = Inr s"
    by (cases "py_lower tv")
       (auto simp: calculate_part_area_def and_then_simps py_lower_not_ValueError)
  from py_lower_Inr [OF s] obtain t where t: "tv = PStr t" "s = lower t" by blast
  from tv t have ty: "p ''type'' = Some (PStr t)"
    by (auto simp: getitem_def split: option.splits)
  have "lower t \<notin> kinds"
  proof
    assume "lower t \<in> kinds"
    with assms tv s t show False
      by (auto simp: calculate_part_area_def and_then_simps kinds_def
          dest!: and_then_ValueError
          simp: getitem_not_ValueError py_mul_not_ValueError)
  qed
  with ty show ?thesis by blast
qed

lemma lower_examples:
  "lower ''Rectangle'' = ''rectangle''"
  "lower ''RECTANGLE'' = ''rectangle''"
  "lower ''hexagon'' = ''hexagon''"
  unfolding lower_def by code_simp+

lemma hexagon_not_kind: "''hexagon'' \<notin> kinds"
  by (simp add: kinds_def)

lemma rectangle_part_type:
  "(rectangle_part name w h)(''type'' \<mapsto> PStr ''rectangle'') = rectangle_part name w h"
  by (auto simp: rectangle_part_def)

lemma rectangle_part_measures:
  "get_part_bounds (rectangle_part name w h) = Inr (PFloat w, PFloat h)"
  "calculate_part_area (rectangle_part name w h) = Inr (PFloat (w * h))"
  by (simp_all add: get_part_bounds_def calculate_part_area_def rectangle_part_def getitem_def
      py_lower_def lower_rectangle and_then_simps)

text \<open>
  C9. Shape kinds are matched without regard to letter case: \<open>create_part_from_dict\<close>,
  \<open>get_part_bounds\<close> and \<open>calculate_part_area\<close> give the same result for two tags with
  the same lower-casing, so every casing of a tag gives the result of the lower-case
  tag (lower-casing a lower-cased tag changes nothing). A tag whose lower-casing is not
  one of the three kinds makes each of the three raise the unsupported-kind error, and
  none of them raises that kind of error for any other part.
\<close>

theorem kind_matching_ignores_case:
  "(lower t = lower t' \<longrightarrow>
      create_part_from_dict G (p(''type'' \<mapsto> PStr t))
        = create_part_from_dict G (p(''type'' \<mapsto> PStr t'))
    \<and> get_part_bounds (p(''type'' \<mapsto> PStr t)) = get_part_bounds (p(''type'' \<mapsto> PStr t'))
    \<and> calculate_part_area (p(''type'' \<mapsto> PStr t))
        = calculate_part_area (p(''type'' \<mapsto> PStr t')))
   \<and> lower (lower t) = lower t
   \<and> (q ''type'' = Some (PStr t) \<and> lower t \<notin> kinds \<longrightarrow>
        create_part_from_dict G q = Inl (unsupported (lower t))
      \<and> get_part_bounds q = Inl (unsupported (lower t))
      \<and> calculate_part_area q = Inl (unsupported (lower t)))
   \<and> (create_part_from_dict G q = Inl (ValueError msg)
        \<or> get_part_bounds q = Inl (ValueError msg)
        \<or> calculate_part_area q = Inl (ValueError msg)
      \<longrightarrow> (\<exists>s. q ''type'' = Some (PStr s) \<and> lower s \<notin> kinds))"
  using create_depends_on_lower [of t t' G p] bounds_depends_on_lower [of t t' p]
    area_depends_on_lower [of t t' p] lower_idem [of t]
    create_unsupported [of q t G] bounds_unsupported [of q t] area_unsupported [of q t]
    create_ValueError [of G q msg] bounds_ValueError [of q msg] area_ValueError [of q msg]
  by blast

theorem kind_matching_ignores_case_witness:
  "lower ''RECTANGLE'' = lower ''rectangle''
   \<and> create_part_from_dict rectangles (part_a(''type'' \<mapsto> PStr ''RECTANGLE''))
       = Inr (ring_box (- 2) (- 2) 2 2)
   \<and> get_part_bounds (part_a(''type'' \<mapsto> PStr ''RECTANGLE'')) = Inr (PFloat 4, PFloat 4)
   \<and> calculate_part_area (part_a(''type'' \<mapsto> PStr ''RECTANGLE'')) = Inr (PFloat 16)
   \<and> hexagon_part ''type'' = Some (PStr ''hexagon'') \<and> lower ''hexagon'' \<notin> kinds
   \<and> create_part_from_dict rectangles hexagon_part
       = Inl (ValueError ''Unsupported part type: hexagon'')
   \<and> get_part_bounds hexagon_part = Inl (ValueError ''Unsupported part type: hexagon'')
   \<and> calculate_part_area hexagon_part = Inl (ValueError ''Unsupported part type: hexagon'')"
proof -
  have same: "lower ''RECTANGLE'' = lower ''rectangle''"
    by (simp add: lower_examples lower_rectangle)
  have hex: "hexagon_part ''type'' = Some (PStr ''hexagon'')"
    by (simp add: hexagon_part_def)
  show ?thesis
    using kind_matching_ignores_case
      [of "''RECTANGLE''" "''rectangle''" rectangles part_a hexagon_part "''hexagon''"]
      kind_matching_ignores_case
      [of "''hexagon''" "''hexagon''" rectangles part_a hexagon_part "''hexagon''"]
      same hex hexagon_not_kind
    by (simp add: lower_examples part_a_def rectangle_part_type create_rectangle_part
        rectangle_part_measures unsupported_def)
qed

section \<open>Unsupported kinds and absorbed exceptions\<close>

lemma transformed_create_error:
  "create_part_from_dict G part = Inl e \<Longrightarrow> transformed G (part, x, y, rotation) = Inl e"
  by (simp add: transformed_def and_then_simps)

lemma transformed_rotate_error:
  "create_part_from_dict G part = Inr s \<Longrightarrow> rotation \<noteq> 0 \<Longrightarrow>
   rotate_center G s rotation = None \<Longrightarrow>
   transformed G (part, x, y, rotation) = Inl ShapelyError"
  by (simp add: transformed_def and_then_simps lib_def)

lemma evaluate_try_transformed_error:
  assumes "transformed G entry = Inl e"
  shows "evaluate_try G self st entry = Inl e"
proof -
  obtain part x y rotation where en: "entry = (part, x, y, rotation)" by (cases entry) auto
  obtain placed t where st: "st = (placed, t)" by (cases st) auto
  show ?thesis
    using assms unfolding en st transformed_def evaluate_try_def
    by (auto simp: and_then_def split: sum.splits)
qed

lemma evaluate_skip:
  assumes "evaluate_try G self st entry = Inl e"
  shows "evaluate_step G self st entry = st"
    and "evaluate_loop G self (entry # rest) st = evaluate_loop G self rest st"
  using assms by (simp_all add: evaluate_step_def)

text \<open>
  C7, as amended. \<open>create_part_from_dict\<close> raises the unsupported-kind error for every
  string tag whose lower-casing is not rectangle, circle or triangle. In the fitness
  evaluation an exception raised while the shape of a layout entry is built, rotated or
  translated, or anywhere else in the \<open>try\<close> body, is absorbed: the step leaves the
  accepted shapes and the accepted area as they were, and the loop goes on with the
  remaining entries.
\<close>

theorem unsupported_kind_and_absorbed_errors:
  "(p ''type'' = Some (PStr t) \<and> lower t \<notin> kinds \<longrightarrow>
      create_part_from_dict G p = Inl (unsupported (lower t)))
   \<and> (create_part_from_dict G part = Inl e \<longrightarrow>
        transformed G (part, x, y, rotation) = Inl e)
   \<and> (create_part_from_dict G part = Inr s \<and> rotation \<noteq> 0
        \<and> rotate_center G s rotation = None \<longrightarrow>
        transformed G (part, x, y, rotation) = Inl ShapelyError)
   \<and> (transformed G entry = Inl e \<or> evaluate_try G self st entry = Inl e \<longrightarrow>
        evaluate_step G self st entry = st
      \<and> evaluate_loop G self (entry # rest) st = evaluate_loop G self rest st)"
  using create_unsupported [of p t G] transformed_create_error [of G part e x y rotation]
    transformed_rotate_error [of G part s rotation x y]
    evaluate_try_transformed_error [of G entry e self st]
    evaluate_skip(1) [of G self st entry e]
    evaluate_skip(2) [of G self st entry e rest]
  by blast

theorem unsupported_kind_and_absorbed_errors_witness:
  "hexagon_part ''type'' = Some (PStr ''hexagon'') \<and> lower ''hexagon'' \<notin> kinds
   \<and> create_part_from_dict rectangles hexagon_part
       = Inl (ValueError ''Unsupported part type: hexagon'')
   \<and> transformed rectangles (hexagon_part, 5, 5, 0)
       = Inl (ValueError ''Unsupported part type: hexagon'')
   \<and> evaluate_loop rectangles small_sheet mixed_layout ([], 0)
       = ([ring_translate (ring_box (- 2) (- 2) 2 2) 2 2,
           ring_translate (ring_box (- 1) (- 1) 1 1) 6 6], 20)"
proof -
  have hex: "hexagon_part ''type'' = Some (PStr ''hexagon'')"
    by (simp add: hexagon_part_def)
  have first: "evaluate_step rectangles small_sheet ([], 0) (part_a, 2, 2, 0)
      = ([ring_translate (ring_box (- 2) (- 2) 2 2) 2 2], 16)"
    by (simp add: small_sheet_def optimizer_on_def part_a_def evaluate_step_def
        evaluate_try_def rect_eval)
  have last: "evaluate_step rectangles small_sheet
        ([ring_translate (ring_box (- 2) (- 2) 2 2) 2 2], 16) (part_c, 6, 6, 0)
      = ([ring_translate (ring_box (- 2) (- 2) 2 2) 2 2,
          ring_translate (ring_box (- 1) (- 1) 1 1) 6 6], 20)"
    by (simp add: small_sheet_def optimizer_on_def part_c_def evaluate_step_def
        evaluate_try_def rect_eval)
  note t = unsupported_kind_and_absorbed_errors
      [where p = hexagon_part and t = "''hexagon''" and G = rectangles and part = hexagon_part
         and e = "unsupported ''hexagon''" and x = 5 and y = 5 and rotation = 0
         and entry = "(hexagon_part, 5, 5, 0)" and self = small_sheet
         and st = "([ring_translate (ring_box (- 2) (- 2) 2 2) 2 2], 16)"
         and rest = "[(part_c, 6, 6, 0)]"]
  from t hex hexagon_not_kind have
    c: "create_part_from_dict rectangles hexagon_part = Inl (unsupported ''hexagon'')"
    by (simp add: lower_examples)
  with t have tr: "transformed rectangles (hexagon_part, 5, 5, 0) = Inl (unsupported ''hexagon'')"
    by simp
  with t have skip: "evaluate_loop rectangles small_sheet
        [(hexagon_part, 5, 5, 0), (part_c, 6, 6, 0)]
        ([ring_translate (ring_box (- 2) (- 2) 2 2) 2 2], 16)
     = evaluate_loop rectangles small_sheet [(part_c, 6, 6, 0)]
        ([ring_translate (ring_box (- 2) (- 2) 2 2) 2 2], 16)"
    by simp
  have "evaluate_loop rectangles small_sheet mixed_layout ([], 0)
     = evaluate_loop rectangles small_sheet [(hexagon_part, 5, 5, 0), (part_c, 6, 6, 0)]
        ([ring_translate (ring_box (- 2) (- 2) 2 2) 2 2], 16)"
    by (simp add: mixed_layout_def first)
  also note skip
  also have "evaluate_loop rectangles small_sheet [(part_c, 6, 6, 0)]
        ([ring_translate (ring_box (- 2) (- 2) 2 2) 2 2], 16)
      = ([ring_translate (ring_box (- 2) (- 2) 2 2) 2 2,
          ring_translate (ring_box (- 1) (- 1) 1 1) 6 6], 20)"
    by (simp add: last)
  finally show ?thesis using hex hexagon_not_kind c tr
    by (simp add: lower_examples unsupported_def)
qed

text \<open>
  C7 as stated fails for a tag that differs from the three kinds only in letter case:
  the tag \<open>Rectangle\<close> is none of the strings rectangle, circle and triangle, and the
  part is built all the same.
\<close>

theorem capital_tag_counterexample:
  "''Rectangle'' \<notin> kinds
   \<and> capital_part ''type'' = Some (PStr ''Rectangle'')
   \<and> create_part_from_dict rectangles capital_part = Inr (ring_box (- 2) (- 2) 2 2)"
proof -
  have "lower ''Rectangle'' = lower ''rectangle''"
    by (simp add: lower_examples lower_rectangle)
  from create_depends_on_lower [OF this, of rectangles part_a]
  show ?thesis
    by (simp add: capital_part_def kinds_def part_a_def rectangle_part_type create_rectangle_part)
qed

section \<open>Catalog expansion\<close>

lemma copy_loop_result:
  assumes "part ''id'' = Some pid"
  shows "copy_loop rf part q idx acc =
           Inr (acc @ map (\<lambda>i. part(''id'' \<mapsto>
                              (if q > 1 then PStr (py_str rf pid @ ''_'' @ str_nat (i + 1))
                               else pid))) idx)"
  using assms
  by (induction idx arbitrary: acc) (simp_all add: getitem_def and_then_simps)

lemma map_shift: "map (\<lambda>i. f (i + 1)) [0..<n] = map f [1..<n + 1]"
proof -
  have "map (\<lambda>i. f (i + 1)) [0..<n] = map f (map Suc [0..<n])" by (simp add: comp_def)
  also have "map Suc [0..<n] = [1..<n + 1]" by (simp add: map_Suc_upt)
  finally show ?thesis .
qed

lemma expand_step_well_formed:
  assumes "well_formed part"
  shows "expand_loop rf (part # rest) acc = expand_loop rf rest (acc @ spec_replicas rf part)"
proof -
  from assms obtain pid where pid: "part ''id'' = Some pid"
    by (auto simp: well_formed_def)
  show ?thesis
  proof (cases "part ''quantity''")
    case None
    have q1: "spec_quantity part = 1" by (simp add: spec_quantity_def None)
    have rep: "spec_replicas rf part = [part(''id'' \<mapsto> pid)]"
      unfolding spec_replicas_def q1 by (simp add: dict_get_def pid)
    have "expand_loop rf (part # rest) acc = expand_loop rf rest (acc @ [part(''id'' \<mapsto> pid)])"
      by (simp add: dict_get_def None getitem_def pid and_then_simps)
    then show ?thesis by (simp only: rep)
  next
    case (Some v)
    with assms obtain q where q: "v = PInt q"
      by (cases v) (auto simp: well_formed_def)
    define F where "F = (\<lambda>j. part(''id'' \<mapsto>
                 (if 1 < q then PStr (py_str rf pid @ ''_'' @ str_nat j) else pid)))"
    have code: "expand_loop rf (part # rest) acc
        = expand_loop rf rest (acc @ map (\<lambda>i. F (i + 1)) [0..<nat q])"
    proof -
      have "copy_loop rf part q [0..<nat q] acc = Inr (acc @ map (\<lambda>i. F (i + 1)) [0..<nat q])"
        unfolding F_def by (rule copy_loop_result [of part pid, OF pid])
      then show ?thesis by (simp add: dict_get_def Some q and_then_simps)
    qed
    have "(1 < nat q) = (1 < q)" by auto
    then have spec: "spec_replicas rf part = map F [1..<nat q + 1]"
      by (simp add: spec_replicas_def spec_quantity_def Some q dict_get_def pid F_def
          del: upt_Suc)
    show ?thesis unfolding code spec map_shift [of F] ..
  qed
qed

lemma expand_loop_well_formed:
  "\<forall>part \<in> set catalog. well_formed part \<Longrightarrow>
   expand_loop rf catalog acc = Inr (acc @ spec_expand rf catalog)"
proof (induction catalog arbitrary: acc)
  case Nil
  show ?case by (simp add: spec_expand_def)
next
  case (Cons part rest)
  then have wf: "well_formed part" and r: "\<forall>p \<in> set rest. well_formed p" by simp_all
  have "expand_loop rf (part # rest) acc = expand_loop rf rest (acc @ spec_replicas rf part)"
    by (rule expand_step_well_formed [OF wf])
  also have "\<dots> = Inr ((acc @ spec_replicas rf part) @ spec_expand rf rest)"
    by (rule Cons.IH [OF r])
  finally show ?case by (simp add: spec_expand_def)
qed

lemma length_spec_replicas: "length (spec_replicas rf part) = spec_quantity part"
  by (simp add: spec_replicas_def)

lemma length_spec_expand:
  "length (spec_expand rf catalog) = sum_list (map spec_quantity catalog)"
  by (simp add: spec_expand_def length_concat comp_def length_spec_replicas)

lemma spec_replica_id:
  assumes "j < spec_quantity part"
  shows "(spec_replicas rf part ! j) ''id'' =
           Some (if spec_quantity part > 1
                 then PStr (py_str rf (dict_get part ''id'' PNone) @ ''_'' @ str_nat (j + 1))
                 else dict_get part ''id'' PNone)"
    and "k \<noteq> ''id'' \<Longrightarrow> (spec_replicas rf part ! j) k = part k"
  using assms by (simp_all add: spec_replicas_def del: upt_Suc)

lemma length_create_loop:
  "length (fst (create_loop rnd self ps k acc)) = length acc + 3 * length ps"
  by (induction ps arbitrary: k acc) (simp_all add: Let_def)

lemma length_create_individual:
  "length (genes (fst (create_individual rnd k self))) = 3 * length (parts self)"
proof -
  obtain gs k' where c: "create_loop rnd self (parts self) k [] = (gs, k')"
    by (cases "create_loop rnd self (parts self) k []") auto
  with length_create_loop [of rnd self "parts self" k "[]"] show ?thesis
    by (simp add: create_individual_def)
qed

lemma str_nat_digits: "str_nat 1 = ''1''" "str_nat 2 = ''2''" "str_nat 3 = ''3''"
  by (subst str_nat.simps, code_simp)+

lemma str_nat_Suc:
  "str_nat (Suc 0) = ''1''" "str_nat (Suc (Suc 0)) = ''2''"
  "str_nat (Suc (Suc (Suc 0))) = ''3''"
  using str_nat_digits by (simp_all add: numeral_2_eq_2 numeral_3_eq_3)

lemma sample_wf: "well_formed circle_three" "well_formed (rectangle_part ''r1'' 100 50)"
  by (simp_all add: well_formed_def circle_three_def circle_part_def rectangle_part_def)

lemma sample_ids:
  "map (\<lambda>p. p ''id'') (spec_expand (\<lambda>r. []) sample_catalog)
     = [Some (PStr ''c1_1''), Some (PStr ''c1_2''), Some (PStr ''c1_3''), Some (PStr ''r1'')]"
  by (simp add: spec_expand_def sample_catalog_def spec_replicas_def spec_quantity_def
      circle_three_def circle_part_def rectangle_part_def dict_get_def py_str_def
      str_nat_Suc upt_rec comp_def)

text \<open>
  C8. For a catalog whose entries carry an id and a quantity that is absent or an
  integer, \<open>expand_parts_list\<close> returns the expansion of the specification: the copies of
  each entry, entry after entry in catalog order and copy after copy. An entry yields as
  many copies as its quantity; when the quantity is above 1, copy \<open>j\<close> (counted from 1)
  carries the id suffixed with \<open>_j\<close>, otherwise the id is kept. A genotype created for a
  part list has three genes for each part, so one created for the expanded catalog has
  three times as many genes as the expansion has parts.
\<close>

theorem expansion_and_genotype_length:
  "((\<forall>part \<in> set catalog. well_formed part) \<longrightarrow>
       expand_parts_list rf catalog = Inr (spec_expand rf catalog)
     \<and> length (genes (fst (create_individual rnd k (self\<lparr>parts := spec_expand rf catalog\<rparr>))))
         = 3 * length (spec_expand rf catalog))
   \<and> length (spec_expand rf catalog) = sum_list (map spec_quantity catalog)
   \<and> length (spec_replicas rf part) = spec_quantity part
   \<and> (j < spec_quantity part \<longrightarrow>
        (spec_replicas rf part ! j) ''id'' =
           Some (if spec_quantity part > 1
                 then PStr (py_str rf (dict_get part ''id'' PNone) @ ''_'' @ str_nat (j + 1))
                 else dict_get part ''id'' PNone))
   \<and> length (genes (fst (create_individual rnd k self))) = 3 * length (parts self)"
  using expand_loop_well_formed [of catalog rf "[]"] length_spec_expand [of rf catalog]
    length_spec_replicas [of rf part] spec_replica_id(1) [of j part rf]
    length_create_individual [of rnd k self]
    length_create_individual [of rnd k "self\<lparr>parts := spec_expand rf catalog\<rparr>"]
  by (simp add: expand_parts_list_def)

theorem expansion_and_genotype_length_witness:
  "well_formed circle_three \<and> well_formed (rectangle_part ''r1'' 100 50)
   \<and> map_sum id (map (\<lambda>p. p ''id'')) (expand_parts_list (\<lambda>r. []) sample_catalog)
       = Inr [Some (PStr ''c1_1''), Some (PStr ''c1_2''), Some (PStr ''c1_3''),
              Some (PStr ''r1'')]
   \<and> length (spec_expand (\<lambda>r. []) sample_catalog) = 4
   \<and> length (genes (fst (create_individual (\<lambda>k. 0) 0
         (optimizer_on 10 10 (spec_expand (\<lambda>r. []) sample_catalog))))) = 12"
proof -
  have wf: "\<forall>part \<in> set sample_catalog. well_formed part"
    by (simp add: sample_catalog_def sample_wf)
  have q: "sum_list (map spec_quantity sample_catalog) = 4"
    by (simp add: sample_catalog_def spec_quantity_def circle_three_def circle_part_def
        rectangle_part_def)
  have o: "(optimizer_on 10 10 [])\<lparr>parts := spec_expand (\<lambda>r. []) sample_catalog\<rparr>
      = optimizer_on 10 10 (spec_expand (\<lambda>r. []) sample_catalog)"
    by (simp add: optimizer_on_def)
  show ?thesis
    using expansion_and_genotype_length
      [where catalog = sample_catalog and rf = "\<lambda>r. []" and rnd = "\<lambda>k. 0" and k = 0
         and self = "optimizer_on 10 10 []" and part = circle_three and j = 0]
      wf
    by (simp add: sample_wf sample_ids q o)
qed

section \<open>Quantities that are zero, negative or absent\<close>

lemma expand_loop_append:
  "expand_loop rf (xs @ ys) acc = and_then (expand_loop rf xs acc) (expand_loop rf ys)"
proof (induction xs arbitrary: acc)
  case Nil
  show ?case by (simp add: and_then_simps)
next
  case (Cons part rest)
  show ?case
  proof (cases "dict_get part ''quantity'' (PInt 1)")
    case (PInt q)
    show ?thesis
    proof (cases "copy_loop rf part q [0..<nat q] acc")
      case (Inl e)
      with PInt show ?thesis by (simp add: and_then_simps)
    next
      case (Inr a)
      with PInt Cons.IH [of a] show ?thesis by (simp add: and_then_simps)
    qed
  qed (simp_all add: and_then_simps)
qed

lemma expand_skip:
  assumes "part ''quantity'' = Some (PInt q)" "q \<le> 0"
  shows "expand_loop rf (part # rest) acc = expand_loop rf rest acc"
  using assms by (simp add: dict_get_def and_then_simps)

lemma expand_skip_inside:
  assumes "part ''quantity'' = Some (PInt q)" "q \<le> 0"
  shows "expand_parts_list rf (before @ part # after) = expand_parts_list rf (before @ after)"
  unfolding expand_parts_list_def expand_loop_append expand_skip [of part q, OF assms] ..

lemma expand_default:
  assumes "part ''quantity'' = None" "part ''id'' = Some pid"
  shows "expand_loop rf (part # rest) acc = expand_loop rf rest (acc @ [part])"
proof -
  have "part(''id'' \<mapsto> pid) = part" using assms(2) by auto
  then show ?thesis
    using assms by (simp add: dict_get_def getitem_def and_then_simps)
qed

lemma expand_explicit_one:
  assumes "part ''quantity'' = Some (PInt 1)" "part ''id'' = Some pid"
  shows "expand_loop rf (part # rest) acc = expand_loop rf rest (acc @ [part])"
proof -
  have "part(''id'' \<mapsto> pid) = part" using assms(2) by auto
  then show ?thesis
    using assms by (simp add: dict_get_def getitem_def and_then_simps)
qed

text \<open>
  C10. The quantity is not validated. An entry whose quantity is an integer that is zero
  or negative yields no copy and raises nothing: the expansion goes on as if the entry
  were not in the catalog. An entry with no quantity field yields one copy with its id
  unchanged, as an entry with quantity 1 does.
\<close>

theorem quantity_not_validated:
  "(part ''quantity'' = Some (PInt q) \<and> q \<le> 0 \<longrightarrow>
      expand_loop rf (part # rest) acc = expand_loop rf rest acc
    \<and> expand_parts_list rf [part] = Inr []
    \<and> expand_parts_list rf (before @ part # after) = expand_parts_list rf (before @ after))
   \<and> ((part ''quantity'' = None \<or> part ''quantity'' = Some (PInt 1))
        \<and> part ''id'' = Some pid \<longrightarrow>
        expand_loop rf (part # rest) acc = expand_loop rf rest (acc @ [part])
      \<and> expand_parts_list rf [part] = Inr [part])"
  using expand_skip [of part q rf rest acc] expand_skip [of part q rf "[]" "[]"]
    expand_skip_inside [of part q rf before after]
    expand_default [of part pid rf rest acc] expand_default [of part pid rf "[]" "[]"]
    expand_explicit_one [of part pid rf rest acc] expand_explicit_one [of part pid rf "[]" "[]"]
  by (auto simp: expand_parts_list_def)

theorem quantity_not_validated_witness:
  "zero_part ''quantity'' = Some (PInt 0) \<and> (0 :: int) \<le> 0
   \<and> negative_part ''quantity'' = Some (PInt (- 2)) \<and> (- 2 :: int) \<le> 0
   \<and> expand_parts_list (\<lambda>r. []) [zero_part] = Inr []
   \<and> expand_parts_list (\<lambda>r. []) [negative_part] = Inr []
   \<and> expand_parts_list (\<lambda>r. []) [part_a, negative_part, part_c]
       = expand_parts_list (\<lambda>r. []) [part_a, part_c]
   \<and> part_a ''quantity'' = None \<and> part_a ''id'' = Some (PStr ''a'')
   \<and> expand_parts_list (\<lambda>r. []) [part_a] = Inr [part_a]"
proof -
  have z: "zero_part ''quantity'' = Some (PInt 0)" by (simp add: zero_part_def)
  have n: "negative_part ''quantity'' = Some (PInt (- 2))" by (simp add: negative_part_def)
  have a: "part_a ''quantity'' = None" "part_a ''id'' = Some (PStr ''a'')"
    by (simp_all add: part_a_def rectangle_part_def)
  show ?thesis
    using quantity_not_validated [where part = zero_part and q = 0 and rf = "\<lambda>r. []"
        and rest = "[]" and acc = "[]" and before = "[]" and after = "[]"]
      quantity_not_validated [where part = negative_part and q = "- 2" and rf = "\<lambda>r. []"
        and rest = "[]" and acc = "[]" and before = "[part_a]" and after = "[part_c]"]
      quantity_not_validated [where part = part_a and pid = "PStr ''a''" and rf = "\<lambda>r. []"
        and rest = "[]" and acc = "[]" and before = "[]" and after = "[]"]
      z n a
    by simp
qed

end
